theory Spec2Isabelle
  imports Main "HOL-Library.Word"
begin

unbundle bit_operations_syntax

section \<open>Localizar duplicatas: a model of \<^verbatim>\<open>main.cpp\<close>\<close>

text \<open>
  The program reads a root folder, indexes every regular file below it by file name
  (\<^verbatim>\<open>obter_arquivos_duplicados\<close>), and for every name shared by more than one path groups
  the paths by the SHA-256 digest of their content (\<^verbatim>\<open>calcularHash\<close>), printing the groups
  with more than one member and adding up their sizes (\<^verbatim>\<open>exibir_duplicados\<close>).

  The file system, the standard streams and the Crypto++ hash object are outside the
  program. They are modelled as follows.
  \<^item> The file system is a value \<open>sistema\<close> that answers the four kinds of query the
    program makes: whether the root path exists, what is found at the root path and below
    it, what bytes a path yields when it is opened for reading, and what size a path has.
    The four answers are independent of each other, because they are asked at different
    moments of a run and the files may change in between.
  \<^item> Every effect of the program is an \<open>evento\<close>; a function returns the list of its
    events, in program order, beside its result.
  \<^item> An exception is a value of type \<open>excecao\<close>; a function that may let one escape
    returns \<open>excecao + 'a\<close>, with \<open>Inl\<close> the exception.
  \<^item> \<^verbatim>\<open>CryptoPP::SHA256\<close> is the iterated hash of FIPS 180-4, with a block buffer and a
    byte counter, as the library implements it.
\<close>

subsection \<open>SHA-256 (\<^verbatim>\<open>CryptoPP::SHA256\<close>)\<close>

type_synonym byte = "8 word"
type_synonym word32 = "32 word"

definition K256 :: "word32 list" where
  "K256 = [
    0x428A2F98, 0x71374491, 0xB5C0FBCF, 0xE9B5DBA5, 0x3956C25B, 0x59F111F1, 0x923F82A4, 0xAB1C5ED5,
    0xD807AA98, 0x12835B01, 0x243185BE, 0x550C7DC3, 0x72BE5D74, 0x80DEB1FE, 0x9BDC06A7, 0xC19BF174,
    0xE49B69C1, 0xEFBE4786, 0x0FC19DC6, 0x240CA1CC, 0x2DE92C6F, 0x4A7484AA, 0x5CB0A9DC, 0x76F988DA,
    0x983E5152, 0xA831C66D, 0xB00327C8, 0xBF597FC7, 0xC6E00BF3, 0xD5A79147, 0x06CA6351, 0x14292967,
    0x27B70A85, 0x2E1B2138, 0x4D2C6DFC, 0x53380D13, 0x650A7354, 0x766A0ABB, 0x81C2C92E, 0x92722C85,
    0xA2BFE8A1, 0xA81A664B, 0xC24B8B70, 0xC76C51A3, 0xD192E819, 0xD6990624, 0xF40E3585, 0x106AA070,
    0x19A4C116, 0x1E376C08, 0x2748774C, 0x34B0BCB5, 0x391C0CB3, 0x4ED8AA4A, 0x5B9CCA4F, 0x682E6FF3,
    0x748F82EE, 0x78A5636F, 0x84C87814, 0x8CC70208, 0x90BEFFFA, 0xA4506CEB, 0xBEF9A3F7, 0xC67178F2]"

definition InitState :: "word32 list" where
  "InitState = [0x6A09E667, 0xBB67AE85, 0x3C6EF372, 0xA54FF53A,
                0x510E527F, 0x9B05688C, 0x1F83D9AB, 0x5BE0CD19]"

definition Ch :: "word32 \<Rightarrow> word32 \<Rightarrow> word32 \<Rightarrow> word32" where
  "Ch x y z = (x AND y) XOR (NOT x AND z)"

definition Maj :: "word32 \<Rightarrow> word32 \<Rightarrow> word32 \<Rightarrow> word32" where
  "Maj x y z = (x AND y) XOR (x AND z) XOR (y AND z)"

definition S0 :: "word32 \<Rightarrow> word32" where
  "S0 x = word_rotr 2 x XOR word_rotr 13 x XOR word_rotr 22 x"

definition S1 :: "word32 \<Rightarrow> word32" where
  "S1 x = word_rotr 6 x XOR word_rotr 11 x XOR word_rotr 25 x"

definition s0 :: "word32 \<Rightarrow> word32" where
  "s0 x = word_rotr 7 x XOR word_rotr 18 x XOR drop_bit 3 x"

definition s1 :: "word32 \<Rightarrow> word32" where
  "s1 x = word_rotr 17 x XOR word_rotr 19 x XOR drop_bit 10 x"

text \<open>The bytes of a block, read as big-endian 32-bit words.\<close>

fun be32 :: "byte list \<Rightarrow> word32 list" where
  "be32 (a # b # c # d # bs) =
     (push_bit 24 (ucast a) OR push_bit 16 (ucast b) OR push_bit 8 (ucast c) OR ucast d) # be32 bs"
| "be32 _ = []"

text \<open>The message schedule: \<open>expandir 48\<close> extends the 16 words of a block to 64.\<close>

fun expandir :: "nat \<Rightarrow> word32 list \<Rightarrow> word32 list" where
  "expandir 0 w = w"
| "expandir (Suc n) w =
     expandir n (w @ [s1 (w ! (length w - 2)) + w ! (length w - 7)
                      + s0 (w ! (length w - 15)) + w ! (length w - 16)])"

fun rodada :: "word32 list \<Rightarrow> word32 \<times> word32 \<Rightarrow> word32 list" where
  "rodada [a, b, c, d, e, f, g, h] (k, w) =
     (let t1 = h + S1 e + Ch e f g + k + w;
          t2 = S0 a + Maj a b c
      in [t1 + t2, a, b, c, d + t1, e, f, g])"
| "rodada s _ = s"

text \<open>The compression function: one 64-byte block into the eight state words.\<close>

definition Transform :: "word32 list \<Rightarrow> byte list \<Rightarrow> word32 list" where
  "Transform st bloco =
     map2 (+) st (foldl rodada st (zip K256 (expandir 48 (be32 bloco))))"

text \<open>
  The hash object: the eight state words, the bytes of the block not yet complete, and
  the number of bytes fed so far.
\<close>

record sha256 =
  estado :: "word32 list"
  pendente :: "byte list"
  contagem :: nat

definition novo :: sha256 where
  "novo = \<lparr>estado = InitState, pendente = [], contagem = 0\<rparr>"

datatype excecao = HashInputTooLong | FilesystemError "string list"

text \<open>Compresses every complete block of the data and returns the bytes left over.\<close>

function HashMultipleBlocks :: "word32 list \<Rightarrow> byte list \<Rightarrow> word32 list \<times> byte list" where
  "HashMultipleBlocks st dados =
     (if length dados < 64 then (st, dados)
      else HashMultipleBlocks (Transform st (take 64 dados)) (drop 64 dados))"
  by pat_completeness auto
termination
  by (relation "measure (\<lambda>(st, dados). length dados)") auto

declare HashMultipleBlocks.simps [simp del]

text \<open>
  \<^verbatim>\<open>Update\<close>: the library counts the bytes in 64 bits and throws \<^verbatim>\<open>HashInputTooLong\<close>
  when the counter overflows; otherwise the new bytes follow the pending ones and every
  complete block is compressed.
\<close>

definition Update :: "sha256 \<Rightarrow> byte list \<Rightarrow> excecao + sha256" where
  "Update hash dados =
     (if 2 ^ 64 \<le> contagem hash + length dados then Inl HashInputTooLong
      else (case HashMultipleBlocks (estado hash) (pendente hash @ dados) of
              (st, resto) \<Rightarrow>
                Inr \<lparr>estado = st, pendente = resto, contagem = contagem hash + length dados\<rparr>))"

definition be64 :: "64 word \<Rightarrow> byte list" where
  "be64 w = map (\<lambda>i. ucast (drop_bit (8 * i) w)) [7, 6, 5, 4, 3, 2, 1, 0]"

definition bytes32 :: "word32 \<Rightarrow> byte list" where
  "bytes32 w = map (\<lambda>i. ucast (drop_bit (8 * i) w)) [3, 2, 1, 0]"

text \<open>
  \<^verbatim>\<open>Final\<close>: pads the pending bytes with \<open>0x80\<close> and zeros up to 56 modulo 64, appends the
  length of the message in bits as 64 bits, compresses, and writes the state out as 32 bytes.
\<close>

definition Final :: "sha256 \<Rightarrow> byte list" where
  "Final hash =
     (let n = length (pendente hash);
          zeros = (if n < 56 then 55 - n else 119 - n);
          fim = pendente hash @ [0x80] @ replicate zeros 0 @ be64 (of_nat (8 * contagem hash))
      in concat (map bytes32 (fst (HashMultipleBlocks (estado hash) fim))))"

subsection \<open>\<^verbatim>\<open>CryptoPP::HexEncoder\<close>\<close>

definition digito :: "nat \<Rightarrow> char" where
  "digito n = ''0123456789ABCDEF'' ! n"

definition HexEncoder :: "byte list \<Rightarrow> string" where
  "HexEncoder bs = concat (map (\<lambda>b. [digito (unat b div 16), digito (unat b mod 16)]) bs)"

subsection \<open>The file system and the events of a run\<close>

type_synonym caminho = "string list"

text \<open>
  A path is the list of its components; the first is the root as the user typed it.
  \<^verbatim>\<open>filename()\<close> is the last component, and the empty path has an empty file name.
\<close>

definition filename :: "caminho \<Rightarrow> string" where
  "filename p = (if p = [] then [] else last p)"

text \<open>
  What the directory iterator finds at a path: a regular file (or a link to one), a
  directory with its entries, a directory that may not be opened for lack of permission, a
  directory whose opening fails for another reason, an entry whose status cannot be read
  (a link that leads back to itself), or anything else (a link to a directory among them:
  the iterator does not follow it).
\<close>

datatype no =
    Regular
  | Diretorio "(string \<times> no) list"
  | Negado
  | Ilegivel
  | Indeterminado
  | Outro

text \<open>
  The answers of the file system.
  \<^item> \<open>existe fs r\<close> is the outcome of \<^verbatim>\<open>std::filesystem::exists\<close> on the root path \<open>r\<close>:
    true, false, or the exception it throws when the status of the path cannot be read
    (a name longer than the system allows, a parent that may not be searched).
  \<^item> \<open>raiz fs r\<close> is what is found at the root path \<open>r\<close>, with everything below it, when
    the directory iterator is constructed; \<open>None\<close> when there is nothing at \<open>r\<close>.
  \<^item> \<open>abrir fs p\<close> is \<open>None\<close> when the stream on \<open>p\<close> is not open after its
    construction, and otherwise the bytes the stream delivers up to its first read that
    does not fill the buffer.
  \<^item> \<open>tamanho fs p\<close> is the value of \<^verbatim>\<open>std::filesystem::file_size\<close>, a \<^verbatim>\<open>uintmax_t\<close>;
    \<open>None\<close> when the query throws, as it does for a path that is gone.
\<close>

record sistema =
  existe :: "string \<Rightarrow> excecao + bool"
  raiz :: "string \<Rightarrow> no option"
  abrir :: "caminho \<Rightarrow> byte list option"
  tamanho :: "caminho \<Rightarrow> 64 word option"

text \<open>
  The lines the program prints, by kind and with what they name: the title and the prompt
  of lines 101 and 102, the error of line 106, the header of a group with its name (line
  82), the line of a path (line 84), the line of line 94, the estimate of line 116, and
  the two errors of \<^verbatim>\<open>calcularHash\<close> (lines 23 and 46).
\<close>

datatype mensagem =
    Titulo
  | InformePasta
  | RaizNaoExiste
  | DuplicadosParaNome string
  | Item caminho
  | NenhumDuplicado
  | PodeSerLiberado "64 word"
  | NaoFoiPossivelAbrir caminho
  | ErroAoCalcular caminho excecao

text \<open>
  The events of a run: a line on the standard output or on the standard error, the test
  of existence of the root (line 105), the construction of the directory iterator (line
  55), the construction of the stream on a file (line 21, the first effect of every call
  of \<^verbatim>\<open>calcularHash\<close>), and the query of the size of a file (line 85).
\<close>

datatype evento =
    Cout mensagem
  | Cerr mensagem
  | Existe string
  | Percorre string
  | Abre caminho
  | Consulta caminho

subsection \<open>\<^verbatim>\<open>calcularHash\<close>\<close>

definition bufferSize :: nat where
  "bufferSize = 8192"

text \<open>
  The read loop of lines 28 to 34. \<^verbatim>\<open>read\<close> succeeds while a whole buffer is left; the
  read that meets the end of the file fails and leaves the bytes it got, which the
  program feeds when there are any.
\<close>

function ler :: "sha256 \<Rightarrow> byte list \<Rightarrow> excecao + sha256" where
  "ler hash arquivo =
     (if bufferSize \<le> length arquivo then
        (case Update hash (take bufferSize arquivo) of
           Inl e \<Rightarrow> Inl e
         | Inr hash' \<Rightarrow> ler hash' (drop bufferSize arquivo))
      else if 0 < length arquivo then Update hash arquivo
      else Inr hash)"
  by pat_completeness auto
termination
  by (relation "measure (\<lambda>(hash, arquivo). length arquivo)") (auto simp: bufferSize_def)

declare ler.simps [simp del]

definition calcularHash :: "sistema \<Rightarrow> caminho \<Rightarrow> evento list \<times> string" where
  "calcularHash fs caminho =
     (case abrir fs caminho of
        None \<Rightarrow> ([Abre caminho, Cerr (NaoFoiPossivelAbrir caminho)], [])
      | Some arquivo \<Rightarrow>
          (case ler novo arquivo of
             Inl e \<Rightarrow> ([Abre caminho, Cerr (ErroAoCalcular caminho e)], [])
           | Inr hash \<Rightarrow> ([Abre caminho], HexEncoder (Final hash))))"

subsection \<open>\<^verbatim>\<open>std::unordered_map\<close> of vectors\<close>

text \<open>
  A map from keys to vectors is an association list with distinct keys;
  \<open>inserir k v m\<close> is \<^verbatim>\<open>m[k].push_back(v)\<close>. The order in which a loop over the map meets
  the keys is the order of the list. The library does not specify that order; the model
  takes the order of first insertion. The functions of the report take the index as an
  argument, so what is proved of them holds for the index in any order.
\<close>

type_synonym mapa = "(string \<times> caminho list) list"

fun inserir :: "string \<Rightarrow> caminho \<Rightarrow> mapa \<Rightarrow> mapa" where
  "inserir k v [] = [(k, [v])]"
| "inserir k v ((k', vs) # m) =
     (if k = k' then (k', vs @ [v]) # m else (k', vs) # inserir k v m)"

subsection \<open>\<^verbatim>\<open>obter_arquivos_duplicados\<close>\<close>

text \<open>
  The entries the recursive iterator yields below a directory, each before the entries
  below it, and the exception that ends the iteration, if any. A directory that may not
  be opened is an entry itself and yields none (\<^verbatim>\<open>skip_permission_denied\<close>). A directory
  whose opening fails for another reason is an entry itself, and the step of the iterator
  that would enter it throws.
\<close>

fun entradas :: "caminho \<Rightarrow> no \<Rightarrow> (caminho \<times> no) list \<times> excecao option"
  and entradas_de :: "caminho \<Rightarrow> (string \<times> no) list \<Rightarrow> (caminho \<times> no) list \<times> excecao option" where
  "entradas p (Diretorio filhos) = entradas_de p filhos"
| "entradas p Ilegivel = ([], Some (FilesystemError p))"
| "entradas p Regular = ([], None)"
| "entradas p Negado = ([], None)"
| "entradas p Indeterminado = ([], None)"
| "entradas p Outro = ([], None)"
| "entradas_de p [] = ([], None)"
| "entradas_de p (f # filhos) =
     (case entradas (p @ [fst f]) (snd f) of
        (abaixo, Some e) \<Rightarrow> ((p @ [fst f], snd f) # abaixo, Some e)
      | (abaixo, None) \<Rightarrow>
          (case entradas_de p filhos of
             (depois, r) \<Rightarrow> ((p @ [fst f], snd f) # abaixo @ depois, r)))"

text \<open>
  The body of the loop, lines 57 to 60. \<^verbatim>\<open>is_regular_file()\<close> throws for an entry whose
  status cannot be read; nothing catches the exception.
\<close>

definition registrar :: "mapa \<Rightarrow> caminho \<times> no \<Rightarrow> excecao + mapa" where
  "registrar arquivos entrada =
     (if snd entrada = Indeterminado then Inl (FilesystemError (fst entrada))
      else if snd entrada = Regular
      then Inr (inserir (filename (fst entrada)) (fst entrada) arquivos)
      else Inr arquivos)"

text \<open>The loop over the entries yielded, lines 55 to 61.\<close>

fun indexar :: "mapa \<Rightarrow> (caminho \<times> no) list \<Rightarrow> excecao + mapa" where
  "indexar arquivos [] = Inr arquivos"
| "indexar arquivos (entrada # es) =
     (case registrar arquivos entrada of
        Inl e \<Rightarrow> Inl e
      | Inr arquivos' \<Rightarrow> indexar arquivos' es)"

text \<open>
  The constructor of the iterator throws when the root cannot be opened as a directory,
  except for a permission error, where it yields the end iterator. The entries yielded
  before the iteration fails are indexed before the exception of the iterator leaves the
  function.
\<close>

definition obter_arquivos_duplicados :: "sistema \<Rightarrow> string \<Rightarrow> evento list \<times> (excecao + mapa)" where
  "obter_arquivos_duplicados fs pastaRaiz =
     ([Percorre pastaRaiz],
      (case raiz fs pastaRaiz of
         None \<Rightarrow> Inl (FilesystemError [pastaRaiz])
       | Some Regular \<Rightarrow> Inl (FilesystemError [pastaRaiz])
       | Some Indeterminado \<Rightarrow> Inl (FilesystemError [pastaRaiz])
       | Some Outro \<Rightarrow> Inl (FilesystemError [pastaRaiz])
       | Some d \<Rightarrow>
           (case entradas [pastaRaiz] d of
              (es, falha) \<Rightarrow>
                (case indexar [] es of
                   Inl e \<Rightarrow> Inl e
                 | Inr arquivos \<Rightarrow>
                     (case falha of Some e \<Rightarrow> Inl e | None \<Rightarrow> Inr arquivos)))))"

subsection \<open>\<^verbatim>\<open>exibir_duplicados\<close>\<close>

text \<open>Lines 74 to 78: the digest of every path of a name, the failed ones left out.\<close>

fun agrupar :: "sistema \<Rightarrow> caminho list \<Rightarrow> mapa \<Rightarrow> evento list \<times> mapa" where
  "agrupar fs [] hashes = ([], hashes)"
| "agrupar fs (caminho # caminhos) hashes =
     (case calcularHash fs caminho of
        (ev, hash) \<Rightarrow>
          (case agrupar fs caminhos (if hash \<noteq> [] then inserir hash caminho hashes else hashes) of
             (evs, r) \<Rightarrow> (ev @ evs, r)))"

text \<open>
  The running totals: \<^verbatim>\<open>encontrouDuplicados\<close>, \<^verbatim>\<open>tamanhoTotalEmBytes\<close> (a \<^verbatim>\<open>size_t\<close>, of
  64 bits) and \<^verbatim>\<open>totalDuplicatas\<close> (an \<^verbatim>\<open>int\<close>, of 32 bits). Both wrap around in the
  model; for the \<^verbatim>\<open>int\<close> the language leaves the overflow undefined, and the properties of
  the count are stated for fewer than \<open>2 ^ 31\<close> paths.
\<close>

type_synonym totais = "bool \<times> 64 word \<times> 32 word"

text \<open>
  Lines 83 to 87: each path of a group is printed, then its size is asked with the
  throwing \<^verbatim>\<open>file_size\<close>, which nothing in the program catches.
\<close>

fun somar :: "sistema \<Rightarrow> caminho list \<Rightarrow> 64 word \<times> 32 word \<Rightarrow>
    evento list \<times> (excecao + 64 word \<times> 32 word)" where
  "somar fs [] t = ([], Inr t)"
| "somar fs (caminho # caminhos) (tamanhoTotalEmBytes, totalDuplicatas) =
     (case tamanho fs caminho of
        None \<Rightarrow> ([Cout (Item caminho), Consulta caminho], Inl (FilesystemError caminho))
      | Some n \<Rightarrow>
          (case somar fs caminhos (tamanhoTotalEmBytes + n, totalDuplicatas + 1) of
             (evs, r) \<Rightarrow> (Cout (Item caminho) # Consulta caminho # evs, r)))"

text \<open>Lines 80 to 90: the groups of one name with more than one member.\<close>

fun imprimir :: "sistema \<Rightarrow> string \<Rightarrow> caminho list list \<Rightarrow> totais \<Rightarrow>
    evento list \<times> (excecao + totais)" where
  "imprimir fs nomeArquivo [] t = ([], Inr t)"
| "imprimir fs nomeArquivo (caminhosHash # resto) (encontrou, tam, tot) =
     (if 1 < length caminhosHash then
        (case somar fs caminhosHash (tam, tot) of
           (ev, Inl e) \<Rightarrow> (Cout (DuplicadosParaNome nomeArquivo) # ev, Inl e)
         | (ev, Inr (tam', tot')) \<Rightarrow>
             (case imprimir fs nomeArquivo resto (True, tam', tot') of
                (evs, r) \<Rightarrow> (Cout (DuplicadosParaNome nomeArquivo) # ev @ evs, r)))
      else imprimir fs nomeArquivo resto (encontrou, tam, tot))"

text \<open>Lines 70 to 92: the loop over the names.\<close>

fun percorrer :: "sistema \<Rightarrow> mapa \<Rightarrow> totais \<Rightarrow> evento list \<times> (excecao + totais)" where
  "percorrer fs [] t = ([], Inr t)"
| "percorrer fs ((nomeArquivo, caminhos) # arquivos) t =
     (if 1 < length caminhos then
        (case agrupar fs caminhos [] of
           (ev1, hashes) \<Rightarrow>
             (case imprimir fs nomeArquivo (map snd hashes) t of
                (ev2, Inl e) \<Rightarrow> (ev1 @ ev2, Inl e)
              | (ev2, Inr t') \<Rightarrow>
                  (case percorrer fs arquivos t' of
                     (evs, r) \<Rightarrow> (ev1 @ ev2 @ evs, r))))
      else percorrer fs arquivos t)"

text \<open>
  The pair returned is of two \<^verbatim>\<open>size_t\<close>: the \<^verbatim>\<open>int\<close> counter is converted with its sign.
\<close>

definition exibir_duplicados :: "sistema \<Rightarrow> mapa \<Rightarrow> evento list \<times> (excecao + 64 word \<times> 64 word)" where
  "exibir_duplicados fs arquivos =
     (case percorrer fs arquivos (False, 0, 0) of
        (ev, Inl e) \<Rightarrow> (ev, Inl e)
      | (ev, Inr (encontrouDuplicados, tamanhoTotalEmBytes, totalDuplicatas)) \<Rightarrow>
          (ev @ (if \<not> encontrouDuplicados then [Cout NenhumDuplicado] else []),
           Inr (tamanhoTotalEmBytes, scast totalDuplicatas)))"

subsection \<open>\<^verbatim>\<open>main\<close>\<close>

text \<open>
  The line read from the standard input is the argument. An exception that leaves
  \<open>main\<close> ends the program through \<^verbatim>\<open>std::terminate\<close>: the result is \<open>Inl\<close>. Otherwise
  the result is the value returned, the exit status. The test of line 105 uses the
  throwing \<^verbatim>\<open>exists\<close>, and nothing catches what it throws.
\<close>

definition estimativa :: "64 word \<times> 64 word \<Rightarrow> evento list" where
  "estimativa r =
     (case r of (tamanhoBytes, tot) \<Rightarrow>
        (if tot \<noteq> 0 then [Cout (PodeSerLiberado (tamanhoBytes - tamanhoBytes div tot))]
         else []))"

definition main :: "sistema \<Rightarrow> string \<Rightarrow> evento list \<times> (excecao + int)" where
  "main fs pastaRaiz =
     (case existe fs pastaRaiz of
        Inl e \<Rightarrow> ([Cout Titulo, Cout InformePasta, Existe pastaRaiz], Inl e)
      | Inr False \<Rightarrow>
          ([Cout Titulo, Cout InformePasta, Existe pastaRaiz, Cout RaizNaoExiste], Inr (- 1))
      | Inr True \<Rightarrow>
          (case obter_arquivos_duplicados fs pastaRaiz of
             (ev1, Inl e) \<Rightarrow> ([Cout Titulo, Cout InformePasta, Existe pastaRaiz] @ ev1, Inl e)
           | (ev1, Inr arquivos) \<Rightarrow>
               (case exibir_duplicados fs arquivos of
                  (ev2, Inl e) \<Rightarrow>
                    ([Cout Titulo, Cout InformePasta, Existe pastaRaiz] @ ev1 @ ev2, Inl e)
                | (ev2, Inr r) \<Rightarrow>
                    ([Cout Titulo, Cout InformePasta, Existe pastaRaiz] @ ev1 @ ev2 @ estimativa r,
                     Inr 0))))"

subsection \<open>Notions used in the properties\<close>

text \<open>
  \<^verbatim>\<open>CalculateDigest\<close> of the library: the digest of a byte sequence fed to a new hash
  object in one piece.
\<close>

definition CalculateDigest :: "byte list \<Rightarrow> excecao + byte list" where
  "CalculateDigest dados =
     (case Update novo dados of Inl e \<Rightarrow> Inl e | Inr hash \<Rightarrow> Inr (Final hash))"

text \<open>The invariant of a hash object between two calls.\<close>

definition integro :: "sha256 \<Rightarrow> bool" where
  "integro h \<longleftrightarrow> length (estado h) = 8 \<and> length (pendente h) < 64 \<and> contagem h < 2 ^ 64"

text \<open>
  The paths of the groups that are reported: for every name with more than one path, the
  members of every group of equal digest with more than one member, in the order of the
  report.
\<close>

fun duplicados :: "sistema \<Rightarrow> mapa \<Rightarrow> caminho list" where
  "duplicados fs [] = []"
| "duplicados fs ((nomeArquivo, caminhos) # arquivos) =
     (if 1 < length caminhos
      then concat (filter (\<lambda>g. 1 < length g) (map snd (snd (agrupar fs caminhos []))))
      else []) @ duplicados fs arquivos"

text \<open>The paths named by the lines of a report, in the order printed.\<close>

fun itens :: "evento list \<Rightarrow> caminho list" where
  "itens [] = []"
| "itens (Cout (Item p) # es) = p # itens es"
| "itens (e # es) = itens es"

text \<open>The estimates printed in a run, in the order printed.\<close>

fun estimativas :: "evento list \<Rightarrow> 64 word list" where
  "estimativas [] = []"
| "estimativas (Cout (PodeSerLiberado v) # es) = v # estimativas es"
| "estimativas (e # es) = estimativas es"

text \<open>The size of a path as a number, zero where the query fails.\<close>

definition tamanho_de :: "sistema \<Rightarrow> caminho \<Rightarrow> nat" where
  "tamanho_de fs p = (case tamanho fs p of None \<Rightarrow> 0 | Some n \<Rightarrow> unat n)"

text \<open>An index by name: the names are distinct and every path is under its file name.\<close>

definition bem_formado :: "mapa \<Rightarrow> bool" where
  "bem_formado m \<longleftrightarrow>
     distinct (map fst m) \<and> (\<forall>(n, ps) \<in> set m. \<forall>p \<in> set ps. filename p = n)"

subsection \<open>Example file systems\<close>

definition hello :: "byte list" where
  "hello = [0x68, 0x65, 0x6c, 0x6c, 0x6f]"

definition abc :: "byte list" where
  "abc = [0x61, 0x62, 0x63]"

text \<open>The message of 448 bits of the examples of the standard.\<close>

definition msg448 :: "byte list" where
  "msg448 = map (\<lambda>c. of_nat (of_char c))
     ''abcdbcdecdefdefgefghfghighijhijkijkljklmklmnlmnomnopnopq''"

text \<open>Two paths with the content \<open>abc\<close>; every other path cannot be opened.\<close>

definition fs_abc :: sistema where
  "fs_abc = \<lparr>existe = (\<lambda>r. Inr False), raiz = (\<lambda>r. None),
     abrir = (\<lambda>p. if p = [''r'', ''a''] \<or> p = [''r'', ''b''] then Some abc else None),
     tamanho = (\<lambda>p. None)\<rparr>"

text \<open>An empty file at every path.\<close>

definition fs_vazio :: sistema where
  "fs_vazio = \<lparr>existe = (\<lambda>r. Inr False), raiz = (\<lambda>r. None), abrir = (\<lambda>p. Some []), tamanho = (\<lambda>p. Some 0)\<rparr>"

text \<open>
  A tree with two files \<open>x.txt\<close> of content \<open>hello\<close>, one file \<open>y.txt\<close> without
  content, two files \<open>z.txt\<close> that cannot be opened, and a directory that may not be
  entered. Beside it, a regular file \<open>nota.txt\<close>, an empty directory \<open>vazia\<close>, and a
  directory \<open>laco\<close> that holds a link to itself. Nothing is at any other root; of these,
  the name of 300 characters is longer than a file name may be, and the query of its
  status fails.
\<close>

definition raiz_longa :: string where
  "raiz_longa = replicate 300 CHR ''a''"

definition arvore :: no where
  "arvore = Diretorio
     [(''a'', Diretorio [(''x.txt'', Regular)]),
      (''b'', Diretorio [(''x.txt'', Regular), (''y.txt'', Regular)]),
      (''c'', Negado),
      (''z.txt'', Regular),
      (''d'', Diretorio [(''z.txt'', Regular)])]"

definition fs_exemplo :: sistema where
  "fs_exemplo = \<lparr>
     existe = (\<lambda>r. if r = raiz_longa then Inl (FilesystemError [r])
                    else Inr (r = ''raiz'' \<or> r = ''nota.txt'' \<or> r = ''vazia'' \<or> r = ''laco'')),
     raiz = (\<lambda>r. if r = ''raiz'' then Some arvore
                  else if r = ''nota.txt'' then Some Regular
                  else if r = ''vazia'' then Some (Diretorio [])
                  else if r = ''laco'' then Some (Diretorio [(''eu'', Indeterminado)])
                  else None),
     abrir = (\<lambda>p. if filename p = ''x.txt'' then Some hello
                   else if filename p = ''y.txt'' then Some []
                   else None),
     tamanho = (\<lambda>p. if filename p = ''x.txt'' then Some 5
                     else if filename p = ''y.txt'' then Some 0
                     else None)\<rparr>"

text \<open>The same, where one of the two \<open>x.txt\<close> is gone when its size is asked.\<close>

definition fs_sumiu :: sistema where
  "fs_sumiu = fs_exemplo\<lparr>tamanho := (\<lambda>p. if p = [''raiz'', ''b'', ''x.txt''] then None
                                            else tamanho fs_exemplo p)\<rparr>"

text \<open>The index by name of the tree and the events of its report.\<close>

definition indice_exemplo :: mapa where
  "indice_exemplo =
     [(''x.txt'', [[''raiz'', ''a'', ''x.txt''], [''raiz'', ''b'', ''x.txt'']]),
      (''y.txt'', [[''raiz'', ''b'', ''y.txt'']]),
      (''z.txt'', [[''raiz'', ''z.txt''], [''raiz'', ''d'', ''z.txt'']])]"

definition eventos_exemplo :: "evento list" where
  "eventos_exemplo =
     [Abre [''raiz'', ''a'', ''x.txt''], Abre [''raiz'', ''b'', ''x.txt''],
      Cout (DuplicadosParaNome ''x.txt''),
      Cout (Item [''raiz'', ''a'', ''x.txt'']), Consulta [''raiz'', ''a'', ''x.txt''],
      Cout (Item [''raiz'', ''b'', ''x.txt'']), Consulta [''raiz'', ''b'', ''x.txt''],
      Abre [''raiz'', ''z.txt''], Cerr (NaoFoiPossivelAbrir [''raiz'', ''z.txt'']),
      Abre [''raiz'', ''d'', ''z.txt''], Cerr (NaoFoiPossivelAbrir [''raiz'', ''d'', ''z.txt''])]"

section \<open>The digest\<close>

subsection \<open>Feeding the hash object in pieces\<close>

lemma HashMultipleBlocks_append:
  "HashMultipleBlocks st (xs @ ys) =
     (case HashMultipleBlocks st xs of (st', r) \<Rightarrow> HashMultipleBlocks st' (r @ ys))"
proof (induction st xs rule: HashMultipleBlocks.induct)
  case (1 st dados)
  show ?case
  proof (cases "length dados < 64")
    case True
    then show ?thesis by (simp add: HashMultipleBlocks.simps [of st dados])
  next
    case False
    then have "HashMultipleBlocks st (dados @ ys) =
        HashMultipleBlocks (Transform st (take 64 dados)) (drop 64 dados @ ys)"
      by (subst HashMultipleBlocks.simps) simp
    also have "\<dots> = (case HashMultipleBlocks (Transform st (take 64 dados)) (drop 64 dados) of
        (st', r) \<Rightarrow> HashMultipleBlocks st' (r @ ys))"
      using 1 False by simp
    also have "HashMultipleBlocks (Transform st (take 64 dados)) (drop 64 dados) =
        HashMultipleBlocks st dados"
      using False by (simp add: HashMultipleBlocks.simps [of st dados])
    finally show ?thesis .
  qed
qed

lemma HashMultipleBlocks_resto: "length (snd (HashMultipleBlocks st xs)) < 64"
  by (induction st xs rule: HashMultipleBlocks.induct)
    (subst HashMultipleBlocks.simps, simp)

lemma HashMultipleBlocks_curto: "length xs < 64 \<Longrightarrow> HashMultipleBlocks st xs = (st, xs)"
  by (simp add: HashMultipleBlocks.simps)

lemma rodada_length: "length s = 8 \<Longrightarrow> length (rodada s kw) = 8"
  by (cases kw) (auto simp: numeral_eq_Suc length_Suc_conv Let_def)

lemma foldl_rodada_length: "length s = 8 \<Longrightarrow> length (foldl rodada s kws) = 8"
  by (induction kws arbitrary: s) (simp_all add: rodada_length)

lemma Transform_length: "length st = 8 \<Longrightarrow> length (Transform st b) = 8"
  by (simp add: Transform_def foldl_rodada_length)

lemma HashMultipleBlocks_length:
  "length st = 8 \<Longrightarrow> length (fst (HashMultipleBlocks st xs)) = 8"
  by (induction st xs rule: HashMultipleBlocks.induct)
    (subst HashMultipleBlocks.simps, simp add: Transform_length)

lemma integro_novo: "integro novo"
  by (simp add: integro_def novo_def InitState_def)

lemma Update_integro: "integro h \<Longrightarrow> Update h xs = Inr h' \<Longrightarrow> integro h'"
  using HashMultipleBlocks_resto [of "estado h" "pendente h @ xs"]
    HashMultipleBlocks_length [of "estado h" "pendente h @ xs"]
  by (auto simp: integro_def Update_def split: if_splits prod.splits)

lemma Update_Nil: "integro h \<Longrightarrow> Update h [] = Inr h"
  by (simp add: integro_def Update_def HashMultipleBlocks_curto)

lemma Update_Update: "Update h xs = Inr h' \<Longrightarrow> Update h' ys = Update h (xs @ ys)"
  by (auto simp: Update_def HashMultipleBlocks_append [of _ "pendente h @ xs", simplified]
      split: if_splits prod.splits)

lemma Update_throw: "Update h xs = Inl e \<Longrightarrow> Update h (xs @ ys) = Inl e"
  by (auto simp: Update_def split: if_splits prod.splits)

text \<open>The read loop feeds the hash object what one call with the whole content feeds it.\<close>

lemma ler_Update: "integro h \<Longrightarrow> ler h c = Update h c"
proof (induction h c rule: ler.induct)
  case (1 hash arquivo)
  show ?case
  proof (cases "bufferSize \<le> length arquivo")
    case False
    then show ?thesis using 1(2) by (simp add: ler.simps [of hash arquivo] Update_Nil)
  next
    case True
    show ?thesis
    proof (cases "Update hash (take bufferSize arquivo)")
      case (Inl e)
      then have "Update hash (take bufferSize arquivo @ drop bufferSize arquivo) = Inl e"
        by (rule Update_throw)
      then show ?thesis using True Inl by (simp add: ler.simps [of hash arquivo])
    next
      case (Inr h')
      then have "integro h'" using 1(2) Update_integro by blast
      then have "ler h' (drop bufferSize arquivo) = Update h' (drop bufferSize arquivo)"
        using 1(1) True Inr by simp
      also have "\<dots> = Update hash (take bufferSize arquivo @ drop bufferSize arquivo)"
        using Inr by (rule Update_Update)
      finally show ?thesis using True Inr by (simp add: ler.simps [of hash arquivo])
    qed
  qed
qed

lemma ler_integro: "integro h \<Longrightarrow> ler h c = Inr h' \<Longrightarrow> integro h'"
  by (simp add: ler_Update Update_integro)

subsection \<open>Test vectors of FIPS 180-4\<close>

lemma ler_vazio: "ler novo [] = Inr novo"
  by (simp add: ler.simps bufferSize_def)

lemma Final_vazio:
  "HexEncoder (Final novo) =
     ''E3B0C44298FC1C149AFBF4C8996FB92427AE41E4649B934CA495991B7852B855''"
  by code_simp

lemma ler_abc: "ler novo abc = Inr \<lparr>estado = InitState, pendente = abc, contagem = 3\<rparr>"
  by (simp add: ler.simps Update_def bufferSize_def novo_def HashMultipleBlocks.simps abc_def)

lemma Final_abc:
  "HexEncoder (Final \<lparr>estado = InitState, pendente = abc, contagem = 3\<rparr>) =
     ''BA7816BF8F01CFEA414140DE5DAE2223B00361A396177A9CB410FF61F20015AD''"
  by code_simp

lemma ler_hello: "ler novo hello = Inr \<lparr>estado = InitState, pendente = hello, contagem = 5\<rparr>"
  by (simp add: ler.simps Update_def bufferSize_def novo_def HashMultipleBlocks.simps hello_def)

lemma Final_hello:
  "HexEncoder (Final \<lparr>estado = InitState, pendente = hello, contagem = 5\<rparr>) =
     ''2CF24DBA5FB0A30E26E83B2AC5B9E29E1B161E5C1FA7425E73043362938B9824''"
  by code_simp

lemma length_msg448: "length msg448 = 56"
  by (simp add: msg448_def)

lemma ler_msg448: "ler novo msg448 = Inr \<lparr>estado = InitState, pendente = msg448, contagem = 56\<rparr>"
  by (simp add: ler.simps Update_def bufferSize_def novo_def HashMultipleBlocks.simps length_msg448)

lemma Final_msg448:
  "HexEncoder (Final \<lparr>estado = InitState, pendente = msg448, contagem = 56\<rparr>) =
     ''248D6A61D20638B8E5C026930C3E6039A33CE45964FF2167F6ECEDD419DB06C1''"
  by code_simp

subsection \<open>The length and the alphabet of a digest\<close>

lemma length_HexEncoder: "length (HexEncoder bs) = 2 * length bs"
  by (induction bs) (simp_all add: HexEncoder_def)

lemma digito_hex: "n < 16 \<Longrightarrow> digito n \<in> set ''0123456789ABCDEF''"
  unfolding digito_def by (rule nth_mem) simp

lemma set_HexEncoder: "set (HexEncoder bs) \<subseteq> set ''0123456789ABCDEF''"
proof -
  have "unat b div 16 < 16" and "unat b mod 16 < 16" for b :: byte
    using unsigned_less [of b, where ?'a = nat] by simp_all
  then have "digito (unat b div 16) \<in> set ''0123456789ABCDEF''"
    and "digito (unat b mod 16) \<in> set ''0123456789ABCDEF''" for b :: byte
    by (simp_all only: digito_hex)
  then show ?thesis unfolding HexEncoder_def by (induction bs) auto
qed

lemma length_bytes32: "length (concat (map bytes32 ws)) = 4 * length ws"
  by (induction ws) (simp_all add: bytes32_def)

lemma length_Final: "integro h \<Longrightarrow> length (Final h) = 32"
  by (simp add: Final_def Let_def length_bytes32 HashMultipleBlocks_length integro_def)

lemma length_digest: "integro h \<Longrightarrow> length (HexEncoder (Final h)) = 64"
  by (simp add: length_HexEncoder length_Final)

section \<open>Claims about the digest\<close>

text \<open>
  Claim C3. The digest is a function of the bytes of the file alone: two paths, in the same
  or in different file systems, that yield the same bytes when opened have the same result
  of \<open>calcularHash\<close>, and so have two calls on one unchanged file. The result of the read
  loop, with its chunks of 8192 bytes and its last partial chunk, is the digest of the
  whole byte sequence fed at once (\<open>CalculateDigest\<close>), in hexadecimal.
\<close>

theorem calcularHash_conteudo:
  assumes "abrir fs1 p1 = Some c" and "abrir fs2 p2 = Some c"
  shows "snd (calcularHash fs1 p1) = snd (calcularHash fs2 p2) \<and>
    snd (calcularHash fs1 p1) = (case CalculateDigest c of Inl e \<Rightarrow> [] | Inr d \<Rightarrow> HexEncoder d)"
  using assms
  by (simp add: calcularHash_def CalculateDigest_def ler_Update integro_novo split: sum.splits)

theorem calcularHash_conteudo_witness:
  "abrir fs_abc [''r'', ''a''] = Some abc \<and> abrir fs_abc [''r'', ''b''] = Some abc \<and>
   snd (calcularHash fs_abc [''r'', ''a'']) = snd (calcularHash fs_abc [''r'', ''b'']) \<and>
   snd (calcularHash fs_abc [''r'', ''a'']) =
     ''BA7816BF8F01CFEA414140DE5DAE2223B00361A396177A9CB410FF61F20015AD''"
proof -
  have a: "abrir fs_abc [''r'', ''a''] = Some abc" and b: "abrir fs_abc [''r'', ''b''] = Some abc"
    by (simp_all add: fs_abc_def)
  have "CalculateDigest abc = Inr (Final \<lparr>estado = InitState, pendente = abc, contagem = 3\<rparr>)"
    using ler_abc by (simp add: CalculateDigest_def ler_Update integro_novo)
  then show ?thesis
    using calcularHash_conteudo [OF a b] a b by (auto simp: Final_abc)
qed

text \<open>
  Claim C9. For a file that can be opened and has no bytes, \<open>calcularHash\<close> succeeds: it
  reports no error and returns the digest of the empty byte sequence, the 64 characters of
  the test vector of the standard. The result differs from the result for a path that
  cannot be opened, which is the empty string beside an error message.
\<close>

theorem calcularHash_arquivo_vazio:
  assumes "abrir fs p = Some []" and "abrir fs' p' = None"
  shows "calcularHash fs p =
      ([Abre p], ''E3B0C44298FC1C149AFBF4C8996FB92427AE41E4649B934CA495991B7852B855'') \<and>
    CalculateDigest [] = Inr (Final novo) \<and>
    snd (calcularHash fs p) = HexEncoder (Final novo) \<and>
    calcularHash fs' p' = ([Abre p', Cerr (NaoFoiPossivelAbrir p')], []) \<and>
    snd (calcularHash fs p) \<noteq> snd (calcularHash fs' p')"
  using assms
  by (simp add: calcularHash_def ler_vazio Final_vazio CalculateDigest_def Update_Nil integro_novo)

theorem calcularHash_arquivo_vazio_witness:
  "abrir fs_vazio [''r'', ''a''] = Some [] \<and> abrir fs_abc [''r'', ''z''] = None \<and>
   calcularHash fs_vazio [''r'', ''a''] =
     ([Abre [''r'', ''a'']], ''E3B0C44298FC1C149AFBF4C8996FB92427AE41E4649B934CA495991B7852B855'') \<and>
   calcularHash fs_abc [''r'', ''z''] =
     ([Abre [''r'', ''z''], Cerr (NaoFoiPossivelAbrir [''r'', ''z''])], [])"
proof -
  have a: "abrir fs_vazio [''r'', ''a''] = Some []" by (simp add: fs_vazio_def)
  have b: "abrir fs_abc [''r'', ''z''] = None" by (simp add: fs_abc_def)
  show ?thesis using calcularHash_arquivo_vazio [OF a b] a b by simp
qed

text \<open>
  Claim C10. A call of \<open>calcularHash\<close> either succeeds, and then returns exactly 64
  characters, all of them hexadecimal digits, without an error message; or it fails, and
  then returns the empty string beside one error message. So the result of a success is
  never the empty string of a failure.
\<close>

theorem calcularHash_sucesso_ou_falha:
  "(\<exists>c h. abrir fs p = Some c \<and> ler novo c = Inr h \<and>
      calcularHash fs p = ([Abre p], HexEncoder (Final h)) \<and>
      length (Final h) = 32 \<and>
      length (snd (calcularHash fs p)) = 64 \<and>
      set (snd (calcularHash fs p)) \<subseteq> set ''0123456789ABCDEF'') \<or>
   (snd (calcularHash fs p) = [] \<and> (\<exists>m. fst (calcularHash fs p) = [Abre p, Cerr m]))"
proof (cases "abrir fs p")
  case None
  then show ?thesis by (simp add: calcularHash_def)
next
  case (Some c)
  show ?thesis
  proof (cases "ler novo c")
    case (Inl e)
    then show ?thesis using Some by (simp add: calcularHash_def)
  next
    case (Inr h)
    then have "integro h" using integro_novo ler_integro by blast
    then have "length (HexEncoder (Final h)) = 64" and "length (Final h) = 32"
      by (simp_all add: length_digest length_Final)
    then show ?thesis using Some Inr set_HexEncoder [of "Final h"]
      by (simp add: calcularHash_def)
  qed
qed

theorem calcularHash_sucesso_ou_falha_witness:
  "length (snd (calcularHash fs_abc [''r'', ''a''])) = 64 \<and>
   snd (calcularHash fs_abc [''r'', ''z'']) = []"
  using calcularHash_sucesso_ou_falha [of fs_abc "[''r'', ''a'']"]
    calcularHash_sucesso_ou_falha [of fs_abc "[''r'', ''z'']"]
  by (auto simp: fs_abc_def calcularHash_def ler_abc)

section \<open>The scanner\<close>

subsection \<open>The index by name and the groups by digest\<close>

lemma inserir_mem:
  assumes "(k', vs) \<in> set (inserir k v m)" and "x \<in> set vs"
  shows "(k' = k \<and> x = v) \<or> (\<exists>vs'. (k', vs') \<in> set m \<and> x \<in> set vs')"
  using assms
proof (induction k v m rule: inserir.induct)
  case (1 k v)
  then show ?case by simp
next
  case (2 k v k0 vs0 m)
  show ?case
  proof (cases "k = k0")
    case True
    with 2(2) have "(k', vs) = (k0, vs0 @ [v]) \<or> (k', vs) \<in> set m" by simp
    then show ?thesis using True 2(3) by fastforce
  next
    case False
    with 2(2) have "(k', vs) = (k0, vs0) \<or> (k', vs) \<in> set (inserir k v m)" by simp
    then show ?thesis
    proof
      assume "(k', vs) = (k0, vs0)"
      then show ?thesis using 2(3) by auto
    next
      assume "(k', vs) \<in> set (inserir k v m)"
      from 2(1) [OF False this 2(3)] show ?thesis by auto
    qed
  qed
qed

lemma inserir_keys:
  "map fst (inserir k v m) = (if k \<in> fst ` set m then map fst m else map fst m @ [k])"
  by (induction k v m rule: inserir.induct) auto

lemma inserir_bem_formado:
  assumes "bem_formado m"
  shows "bem_formado (inserir (filename p) p m)"
proof -
  have "distinct (map fst (inserir (filename p) p m))"
    using assms by (simp add: bem_formado_def inserir_keys)
  moreover have "filename q = n" if "(n, ps) \<in> set (inserir (filename p) p m)" "q \<in> set ps" for n ps q
    using inserir_mem [OF that] assms by (auto simp: bem_formado_def)
  ultimately show ?thesis unfolding bem_formado_def by blast
qed

lemma registrar_bem_formado:
  "bem_formado m \<Longrightarrow> registrar m entrada = Inr m' \<Longrightarrow> bem_formado m'"
  by (auto simp: registrar_def inserir_bem_formado split: if_splits)

lemma indexar_bem_formado:
  "bem_formado m \<Longrightarrow> indexar m es = Inr m' \<Longrightarrow> bem_formado m'"
proof (induction es arbitrary: m)
  case Nil
  then show ?case by simp
next
  case (Cons entrada es)
  from Cons.prems(2) obtain m1 where r: "registrar m entrada = Inr m1"
    and i: "indexar m1 es = Inr m'"
    by (auto split: sum.splits)
  from Cons.prems(1) r have "bem_formado m1" by (rule registrar_bem_formado)
  then show ?case using i by (rule Cons.IH)
qed

lemma obter_bem_formado:
  assumes "snd (obter_arquivos_duplicados fs pastaRaiz) = Inr arquivos"
  shows "bem_formado arquivos"
proof -
  have "bem_formado []" by (simp add: bem_formado_def)
  then have "bem_formado m" if "indexar [] es = Inr m" for es m
    using that by (rule indexar_bem_formado)
  then show ?thesis using assms \<open>bem_formado []\<close>
    by (auto simp: obter_arquivos_duplicados_def
        split: option.splits no.splits sum.splits prod.splits)
qed

lemma snd_agrupar_Cons:
  "snd (agrupar fs (c # cs) m) =
     snd (agrupar fs cs (if snd (calcularHash fs c) \<noteq> []
                         then inserir (snd (calcularHash fs c)) c m else m))"
  by (simp split: prod.splits)

lemma fst_agrupar_Cons:
  "fst (agrupar fs (c # cs) m) =
     fst (calcularHash fs c) @
     fst (agrupar fs cs (if snd (calcularHash fs c) \<noteq> []
                         then inserir (snd (calcularHash fs c)) c m else m))"
  by (simp split: prod.splits)

lemma agrupar_mem:
  "(d, g) \<in> set (snd (agrupar fs cs m)) \<Longrightarrow> p \<in> set g \<Longrightarrow>
     (\<exists>g'. (d, g') \<in> set m \<and> p \<in> set g') \<or>
     (p \<in> set cs \<and> snd (calcularHash fs p) = d \<and> d \<noteq> [])"
proof (induction cs arbitrary: m)
  case Nil
  then show ?case by auto
next
  case (Cons c cs)
  define h where "h = snd (calcularHash fs c)"
  let ?m = "if h \<noteq> [] then inserir h c m else m"
  from Cons.prems have "(d, g) \<in> set (snd (agrupar fs cs ?m))"
    by (simp only: snd_agrupar_Cons h_def)
  from Cons.IH [OF this Cons.prems(2)] show ?case
  proof
    assume "\<exists>g'. (d, g') \<in> set ?m \<and> p \<in> set g'"
    then obtain g' where g': "(d, g') \<in> set ?m" "p \<in> set g'" by blast
    show ?thesis
    proof (cases "h \<noteq> []")
      case True
      with g' inserir_mem [of d g' h c m p] show ?thesis by (auto simp: h_def)
    next
      case False
      with g' show ?thesis by auto
    qed
  next
    assume "p \<in> set cs \<and> snd (calcularHash fs p) = d \<and> d \<noteq> []"
    then show ?thesis by simp
  qed
qed

lemma calcularHash_eventos:
  "fst (calcularHash fs p) = [Abre p] \<or> (\<exists>m. fst (calcularHash fs p) = [Abre p, Cerr m])"
  by (simp add: calcularHash_def split: option.splits sum.splits)

lemma Abre_agrupar: "Abre p \<in> set (fst (agrupar fs cs m)) \<longleftrightarrow> p \<in> set cs"
proof (induction cs arbitrary: m)
  case Nil
  show ?case by simp
next
  case (Cons c cs)
  have "Abre p \<in> set (fst (calcularHash fs c)) \<longleftrightarrow> p = c"
    using calcularHash_eventos [of fs c] by auto
  then show ?case by (auto simp only: fst_agrupar_Cons set_append Un_iff Cons.IH set_ConsD list.set insert_iff)
qed

lemma Cout_agrupar: "Cout x \<notin> set (fst (agrupar fs cs m))"
proof (induction cs arbitrary: m)
  case Nil
  show ?case by simp
next
  case (Cons c cs)
  have "Cout x \<notin> set (fst (calcularHash fs c))"
    using calcularHash_eventos [of fs c] by auto
  then show ?case by (simp only: fst_agrupar_Cons set_append Un_iff Cons.IH) simp
qed

subsection \<open>The loops of the report\<close>

lemma somar_Inr:
  "somar fs cs (tam, tot) = (ev, Inr (tam', tot')) \<Longrightarrow>
     tam' = tam + of_nat (sum_list (map (tamanho_de fs) cs)) \<and> tot' = tot + of_nat (length cs)"
proof (induction cs arbitrary: tam tot ev)
  case Nil
  then show ?case by simp
next
  case (Cons c cs)
  from Cons.prems obtain n evs where n: "tamanho fs c = Some n"
    and r: "somar fs cs (tam + n, tot + 1) = (evs, Inr (tam', tot'))"
    by (auto split: option.splits prod.splits)
  from Cons.IH [OF r] n show ?case by (simp add: tamanho_de_def)
qed

lemma somar_eventos:
  "e \<in> set (fst (somar fs cs t)) \<Longrightarrow> \<exists>c \<in> set cs. e = Cout (Item c) \<or> e = Consulta c"
proof (induction cs arbitrary: t)
  case Nil
  then show ?case by simp
next
  case (Cons c cs)
  obtain tam tot where t: "t = (tam, tot)" by (cases t)
  show ?case
  proof (cases "tamanho fs c")
    case None
    with Cons.prems t show ?thesis by auto
  next
    case (Some n)
    with Cons.prems t have "e = Cout (Item c) \<or> e = Consulta c \<or>
        e \<in> set (fst (somar fs cs (tam + n, tot + 1)))"
      by (auto split: prod.splits)
    with Cons.IH show ?thesis by auto
  qed
qed

lemma imprimir_Inr:
  "imprimir fs nome gs (enc, tam, tot) = (ev, Inr (enc', tam', tot')) \<Longrightarrow>
     tam' = tam + of_nat (sum_list (map (tamanho_de fs) (concat (filter (\<lambda>g. 1 < length g) gs)))) \<and>
     tot' = tot + of_nat (length (concat (filter (\<lambda>g. 1 < length g) gs))) \<and>
     (enc' \<longleftrightarrow> enc \<or> concat (filter (\<lambda>g. 1 < length g) gs) \<noteq> [])"
proof (induction gs arbitrary: enc tam tot ev)
  case Nil
  then show ?case by simp
next
  case (Cons g gs)
  show ?case
  proof (cases "1 < length g")
    case False
    with Cons.prems have "imprimir fs nome gs (enc, tam, tot) = (ev, Inr (enc', tam', tot'))"
      by simp
    from Cons.IH [OF this] False show ?thesis by simp
  next
    case True
    with Cons.prems obtain ev1 tam1 tot1 evs where
      s: "somar fs g (tam, tot) = (ev1, Inr (tam1, tot1))" and
      r: "imprimir fs nome gs (True, tam1, tot1) = (evs, Inr (enc', tam', tot'))"
      by (auto split: prod.splits sum.splits)
    from True have "g \<noteq> []" by auto
    with Cons.IH [OF r] somar_Inr [OF s] True show ?thesis by simp
  qed
qed

lemma imprimir_eventos:
  "e \<in> set (fst (imprimir fs nome gs t)) \<Longrightarrow>
     e = Cout (DuplicadosParaNome nome) \<or>
     (\<exists>g \<in> set gs. 1 < length g \<and> (\<exists>c \<in> set g. e = Cout (Item c) \<or> e = Consulta c))"
proof (induction gs arbitrary: t)
  case Nil
  then show ?case by simp
next
  case (Cons g gs)
  obtain enc tam tot where t: "t = (enc, tam, tot)" by (cases t)
  show ?case
  proof (cases "1 < length g")
    case False
    with Cons.prems t have "e \<in> set (fst (imprimir fs nome gs (enc, tam, tot)))" by simp
    with Cons.IH show ?thesis by auto
  next
    case True
    obtain ev1 r1 where s: "somar fs g (tam, tot) = (ev1, r1)" by (cases "somar fs g (tam, tot)")
    have ev1: "x \<in> set ev1 \<Longrightarrow> \<exists>c \<in> set g. x = Cout (Item c) \<or> x = Consulta c" for x
      using somar_eventos [of x fs g "(tam, tot)"] s by simp
    from Cons.prems t True s have "e = Cout (DuplicadosParaNome nome) \<or> e \<in> set ev1 \<or>
        (\<exists>t'. e \<in> set (fst (imprimir fs nome gs t')))"
      by (auto split: prod.splits sum.splits) (metis fst_conv)
    then show ?thesis
    proof (elim disjE exE)
      assume "e = Cout (DuplicadosParaNome nome)"
      then show ?thesis by simp
    next
      assume "e \<in> set ev1"
      from ev1 [OF this] True show ?thesis by auto
    next
      fix t' assume "e \<in> set (fst (imprimir fs nome gs t'))"
      from Cons.IH [OF this] show ?thesis by auto
    qed
  qed
qed

lemma percorrer_Inr:
  "percorrer fs arqs (enc, tam, tot) = (ev, Inr (enc', tam', tot')) \<Longrightarrow>
     tam' = tam + of_nat (sum_list (map (tamanho_de fs) (duplicados fs arqs))) \<and>
     tot' = tot + of_nat (length (duplicados fs arqs)) \<and>
     (enc' \<longleftrightarrow> enc \<or> duplicados fs arqs \<noteq> [])"
proof (induction arqs arbitrary: enc tam tot ev)
  case Nil
  then show ?case by simp
next
  case (Cons a arqs)
  obtain nome cs where a: "a = (nome, cs)" by (cases a)
  show ?case
  proof (cases "1 < length cs")
    case False
    with Cons.prems a have "percorrer fs arqs (enc, tam, tot) = (ev, Inr (enc', tam', tot'))"
      by simp
    from Cons.IH [OF this] False a show ?thesis by simp
  next
    case True
    with Cons.prems a obtain ev2 enc1 tam1 tot1 evs where
      i: "imprimir fs nome (map snd (snd (agrupar fs cs []))) (enc, tam, tot) =
            (ev2, Inr (enc1, tam1, tot1))" and
      r: "percorrer fs arqs (enc1, tam1, tot1) = (evs, Inr (enc', tam', tot'))"
      by (auto split: prod.splits sum.splits)
    from Cons.IH [OF r] imprimir_Inr [OF i] True a show ?thesis by auto
  qed
qed

lemma percorrer_eventos:
  "e \<in> set (fst (percorrer fs arqs t)) \<Longrightarrow>
     \<exists>nome cs. (nome, cs) \<in> set arqs \<and> 1 < length cs \<and>
       (e \<in> set (fst (agrupar fs cs [])) \<or> e = Cout (DuplicadosParaNome nome) \<or>
        (\<exists>g \<in> set (map snd (snd (agrupar fs cs []))). 1 < length g \<and>
           (\<exists>c \<in> set g. e = Cout (Item c) \<or> e = Consulta c)))"
proof (induction arqs arbitrary: t)
  case Nil
  then show ?case by simp
next
  case (Cons a arqs)
  obtain nome cs where a: "a = (nome, cs)" by (cases a)
  show ?case
  proof (cases "1 < length cs")
    case False
    with Cons.prems a have "e \<in> set (fst (percorrer fs arqs t))" by simp
    from Cons.IH [OF this] show ?thesis by auto
  next
    case True
    from Cons.prems a True have "e \<in> set (fst (agrupar fs cs [])) \<or>
        e \<in> set (fst (imprimir fs nome (map snd (snd (agrupar fs cs []))) t)) \<or>
        (\<exists>t'. e \<in> set (fst (percorrer fs arqs t')))"
      by (auto split: prod.splits sum.splits) (metis fst_conv)
    then show ?thesis
    proof (elim disjE exE)
      assume "e \<in> set (fst (agrupar fs cs []))"
      with True a show ?thesis by auto
    next
      assume "e \<in> set (fst (imprimir fs nome (map snd (snd (agrupar fs cs []))) t))"
      from imprimir_eventos [OF this] True a show ?thesis by auto
    next
      fix t' assume "e \<in> set (fst (percorrer fs arqs t'))"
      from Cons.IH [OF this] show ?thesis by auto
    qed
  qed
qed

subsection \<open>The totals and the estimate\<close>

lemma scast_of_nat_32_64:
  assumes "n < 2 ^ 31"
  shows "(scast (of_nat n :: 32 word) :: 64 word) = of_nat n"
proof -
  have "int n < 2 ^ 31" using assms by (simp add: of_nat_less_numeral_power_cancel_iff)
  then have "sint (of_nat n :: 32 word) = int n"
    by (simp add: signed_of_nat signed_take_bit_int_eq_self_iff)
  then show ?thesis by (simp add: scast_eq)
qed

lemma unat_of_nat_64: "n < 2 ^ 64 \<Longrightarrow> unat (of_nat n :: 64 word) = n"
  by (simp add: unat_of_nat)

lemma word_sub_div_nat:
  assumes "b < 2 ^ 64" and "n < 2 ^ 64"
  shows "(of_nat b :: 64 word) - of_nat b div of_nat n = of_nat (b - b div n)"
proof -
  define x :: "64 word" where "x = of_nat b"
  define y :: "64 word" where "y = of_nat n"
  have b: "unat x = b" and n: "unat y = n"
    using assms by (simp_all add: x_def y_def unat_of_nat_64)
  have d: "unat (x div y) = b div n"
    by (simp only: unat_div b n)
  have "unat (x div y) \<le> unat x"
    by (simp only: d b) simp
  then have "x div y \<le> x" by (simp only: word_le_nat_alt)
  then have "unat (x - x div y) = unat x - unat (x div y)" by (rule unat_sub)
  then have "unat (x - x div y) = b - b div n" by (simp only: d b)
  moreover have "b - b div n < 2 ^ 64" using assms by arith
  then have "unat (of_nat (b - b div n) :: 64 word) = b - b div n"
    by (rule unat_of_nat_64)
  ultimately have "x - x div y = of_nat (b - b div n)" by (simp only: word_unat_eq_iff)
  then show ?thesis by (simp only: x_def y_def)
qed

lemma word_of_nat_64_eq_0: "n < 2 ^ 64 \<Longrightarrow> (of_nat n :: 64 word) = 0 \<longleftrightarrow> n = 0"
  using unat_of_nat_64 [of n] by (auto simp: unat_eq_0 [symmetric] simp del: unat_eq_0)

lemma estimativa_nat:
  assumes "b < 2 ^ 64" and "n < 2 ^ 31"
  shows "estimativa (of_nat b, scast (of_nat n :: 32 word)) =
     (if 1 \<le> n then [Cout (PodeSerLiberado (of_nat (b - b div n)))] else [])"
proof -
  have n64: "n < 2 ^ 64" using assms(2) by simp
  have "estimativa (of_nat b, of_nat n) =
     (if 1 \<le> n then [Cout (PodeSerLiberado (of_nat (b - b div n)))] else [])"
    using word_of_nat_64_eq_0 [OF n64] word_sub_div_nat [OF assms(1) n64]
    by (auto simp: estimativa_def)
  then show ?thesis by (simp only: scast_of_nat_32_64 [OF assms(2)])
qed

lemma somar_Some:
  "somar fs cs t = (ev, Inr t') \<Longrightarrow> c \<in> set cs \<Longrightarrow> \<exists>n. tamanho fs c = Some n"
proof (induction cs arbitrary: t ev)
  case Nil
  then show ?case by simp
next
  case (Cons a cs)
  obtain tam tot where t: "t = (tam, tot)" by (cases t)
  from Cons.prems(1) t obtain n evs where n: "tamanho fs a = Some n"
    and r: "somar fs cs (tam + n, tot + 1) = (evs, Inr t')"
    by (auto split: option.splits prod.splits)
  from Cons.prems(2) Cons.IH [OF r] n show ?case by auto
qed

lemma imprimir_Some:
  "imprimir fs nome gs t = (ev, Inr t') \<Longrightarrow> c \<in> set (concat (filter (\<lambda>g. 1 < length g) gs)) \<Longrightarrow>
     \<exists>n. tamanho fs c = Some n"
proof (induction gs arbitrary: t ev)
  case Nil
  then show ?case by simp
next
  case (Cons g gs)
  obtain enc tam tot where t: "t = (enc, tam, tot)" by (cases t)
  show ?case
  proof (cases "1 < length g")
    case False
    with Cons.prems t have "imprimir fs nome gs t = (ev, Inr t')"
      and "c \<in> set (concat (filter (\<lambda>g. 1 < length g) gs))" by simp_all
    then show ?thesis by (rule Cons.IH)
  next
    case True
    with Cons.prems(1) t obtain ev1 tam1 tot1 evs where
      s: "somar fs g (tam, tot) = (ev1, Inr (tam1, tot1))" and
      r: "imprimir fs nome gs (True, tam1, tot1) = (evs, Inr t')"
      by (auto split: prod.splits sum.splits)
    from Cons.prems(2) True have "c \<in> set g \<or> c \<in> set (concat (filter (\<lambda>g. 1 < length g) gs))"
      by auto
    then show ?thesis using somar_Some [OF s] Cons.IH [OF r] by blast
  qed
qed

lemma percorrer_Some:
  "percorrer fs arqs t = (ev, Inr t') \<Longrightarrow> c \<in> set (duplicados fs arqs) \<Longrightarrow>
     \<exists>n. tamanho fs c = Some n"
proof (induction arqs arbitrary: t ev)
  case Nil
  then show ?case by simp
next
  case (Cons a arqs)
  obtain nome cs where a: "a = (nome, cs)" by (cases a)
  show ?case
  proof (cases "1 < length cs")
    case False
    with Cons.prems a have "percorrer fs arqs t = (ev, Inr t')"
      and "c \<in> set (duplicados fs arqs)" by simp_all
    then show ?thesis by (rule Cons.IH)
  next
    case True
    with Cons.prems(1) a obtain ev2 t1 evs where
      i: "imprimir fs nome (map snd (snd (agrupar fs cs []))) t = (ev2, Inr t1)" and
      r: "percorrer fs arqs t1 = (evs, Inr t')"
      by (auto split: prod.splits sum.splits)
    from Cons.prems(2) True a have
      "c \<in> set (concat (filter (\<lambda>g. 1 < length g) (map snd (snd (agrupar fs cs []))))) \<or>
       c \<in> set (duplicados fs arqs)"
      by auto
    then show ?thesis using imprimir_Some [OF i] Cons.IH [OF r] by blast
  qed
qed

lemma exibir_Inr:
  assumes "snd (exibir_duplicados fs arqs) = Inr r"
  shows "r = (of_nat (sum_list (map (tamanho_de fs) (duplicados fs arqs))),
              scast (of_nat (length (duplicados fs arqs)) :: 32 word))"
    and "\<forall>c \<in> set (duplicados fs arqs). \<exists>n. tamanho fs c = Some n"
    and "Cout NenhumDuplicado \<in> set (fst (exibir_duplicados fs arqs)) \<longleftrightarrow> duplicados fs arqs = []"
proof -
  obtain ev res where p: "percorrer fs arqs (False, 0, 0) = (ev, res)"
    by (cases "percorrer fs arqs (False, 0, 0)")
  with assms obtain enc tam tot where res: "res = Inr (enc, tam, tot)"
    by (cases res) (auto simp: exibir_duplicados_def)
  from percorrer_Inr [OF p [unfolded res]] assms p res
  show "r = (of_nat (sum_list (map (tamanho_de fs) (duplicados fs arqs))),
              scast (of_nat (length (duplicados fs arqs)) :: 32 word))"
    by (auto simp: exibir_duplicados_def)
  from percorrer_Some [OF p [unfolded res]]
  show "\<forall>c \<in> set (duplicados fs arqs). \<exists>n. tamanho fs c = Some n" by blast
  have "Cout NenhumDuplicado \<notin> set ev"
    using percorrer_eventos [of "Cout NenhumDuplicado" fs arqs "(False, 0, 0)"] p
    by (auto simp: Cout_agrupar)
  with percorrer_Inr [OF p [unfolded res]] p res
  show "Cout NenhumDuplicado \<in> set (fst (exibir_duplicados fs arqs)) \<longleftrightarrow> duplicados fs arqs = []"
    by (auto simp: exibir_duplicados_def)
qed

lemma exibir_eventos:
  "e \<in> set (fst (exibir_duplicados fs arqs)) \<Longrightarrow>
     e = Cout NenhumDuplicado \<or> e \<in> set (fst (percorrer fs arqs (False, 0, 0)))"
  by (auto simp: exibir_duplicados_def split: prod.splits sum.splits if_splits)

lemma fst_obter: "fst (obter_arquivos_duplicados fs r) = [Percorre r]"
  by (simp add: obter_arquivos_duplicados_def)

lemma main_eventos:
  assumes "e \<in> set (fst (main fs r))"
  shows "e \<in> {Cout Titulo, Cout InformePasta, Existe r, Cout RaizNaoExiste, Percorre r} \<or>
     (\<exists>v. e = Cout (PodeSerLiberado v)) \<or>
     (\<exists>arqs. snd (obter_arquivos_duplicados fs r) = Inr arqs \<and>
        e \<in> set (fst (exibir_duplicados fs arqs)))"
proof (cases "existe fs r")
  case (Inl x)
  with assms show ?thesis by (auto simp: main_def)
next
  case (Inr b)
  show ?thesis
  proof (cases b)
    case False
    with assms Inr show ?thesis by (auto simp: main_def)
  next
    case True
    obtain ev1 r1 where o: "obter_arquivos_duplicados fs r = (ev1, r1)"
      by (cases "obter_arquivos_duplicados fs r")
    with fst_obter [of fs r] have ev1: "ev1 = [Percorre r]" by simp
    show ?thesis
    proof (cases r1)
      case (Inl x)
      with assms Inr True o ev1 show ?thesis by (auto simp: main_def)
    next
      case arqs: (Inr arqs)
      obtain ev2 r2 where x: "exibir_duplicados fs arqs = (ev2, r2)"
        by (cases "exibir_duplicados fs arqs")
      from assms Inr True o ev1 arqs x have
        "e \<in> {Cout Titulo, Cout InformePasta, Existe r, Percorre r} \<or> e \<in> set ev2 \<or>
         (\<exists>v. e = Cout (PodeSerLiberado v))"
        by (cases r2) (auto simp: main_def estimativa_def split: if_splits)
      with o arqs x show ?thesis by auto
    qed
  qed
qed

lemma duplicados_mem:
  "p \<in> set (duplicados fs arqs) \<Longrightarrow>
     \<exists>nome cs d g. (nome, cs) \<in> set arqs \<and> 1 < length cs \<and>
       (d, g) \<in> set (snd (agrupar fs cs [])) \<and> 1 < length g \<and> p \<in> set g"
proof (induction arqs)
  case Nil
  then show ?case by simp
next
  case (Cons a arqs)
  obtain nome cs where a: "a = (nome, cs)" by (cases a)
  from Cons.prems a have
    "(1 < length cs \<and> (\<exists>d g. (d, g) \<in> set (snd (agrupar fs cs [])) \<and> 1 < length g \<and> p \<in> set g)) \<or>
     p \<in> set (duplicados fs arqs)"
    by (auto split: if_splits) blast
  then show ?case
  proof
    assume "1 < length cs \<and> (\<exists>d g. (d, g) \<in> set (snd (agrupar fs cs [])) \<and> 1 < length g \<and> p \<in> set g)"
    then show ?thesis using a by auto
  next
    assume "p \<in> set (duplicados fs arqs)"
    from Cons.IH [OF this] show ?thesis by auto
  qed
qed

subsection \<open>The lines of the report\<close>

lemma itens_append: "itens (a @ b) = itens a @ itens b"
  by (induction a rule: itens.induct) simp_all

lemma itens_agrupar: "itens (fst (agrupar fs cs m)) = []"
proof (induction cs arbitrary: m)
  case Nil
  show ?case by simp
next
  case (Cons c cs)
  have "itens (fst (calcularHash fs c)) = []"
    using calcularHash_eventos [of fs c] by auto
  then show ?case by (simp only: fst_agrupar_Cons itens_append Cons.IH) simp
qed

lemma itens_somar: "somar fs cs t = (ev, Inr t') \<Longrightarrow> itens ev = cs"
proof (induction cs arbitrary: t ev)
  case Nil
  then show ?case by simp
next
  case (Cons a cs)
  obtain tam tot where t: "t = (tam, tot)" by (cases t)
  from Cons.prems(1) t obtain n evs where n: "tamanho fs a = Some n"
    and r: "somar fs cs (tam + n, tot + 1) = (evs, Inr t')"
    and ev: "ev = Cout (Item a) # Consulta a # evs"
    by (auto split: option.splits prod.splits)
  from Cons.IH [OF r] ev show ?case by simp
qed

lemma itens_imprimir:
  "imprimir fs nome gs t = (ev, Inr t') \<Longrightarrow> itens ev = concat (filter (\<lambda>g. 1 < length g) gs)"
proof (induction gs arbitrary: t ev)
  case Nil
  then show ?case by simp
next
  case (Cons g gs)
  obtain enc tam tot where t: "t = (enc, tam, tot)" by (cases t)
  show ?case
  proof (cases "1 < length g")
    case False
    with Cons.prems t have "imprimir fs nome gs t = (ev, Inr t')" by simp
    from Cons.IH [OF this] False show ?thesis by simp
  next
    case True
    with Cons.prems(1) t obtain ev1 tam1 tot1 evs where
      s: "somar fs g (tam, tot) = (ev1, Inr (tam1, tot1))" and
      r: "imprimir fs nome gs (True, tam1, tot1) = (evs, Inr t')" and
      ev: "ev = Cout (DuplicadosParaNome nome) # ev1 @ evs"
      by (auto split: prod.splits sum.splits)
    from itens_somar [OF s] Cons.IH [OF r] ev True show ?thesis
      by (simp add: itens_append)
  qed
qed

lemma itens_percorrer:
  "percorrer fs arqs t = (ev, Inr t') \<Longrightarrow> itens ev = duplicados fs arqs"
proof (induction arqs arbitrary: t ev)
  case Nil
  then show ?case by simp
next
  case (Cons a arqs)
  obtain nome cs where a: "a = (nome, cs)" by (cases a)
  show ?case
  proof (cases "1 < length cs")
    case False
    with Cons.prems a have "percorrer fs arqs t = (ev, Inr t')" by simp
    from Cons.IH [OF this] False a show ?thesis by simp
  next
    case True
    with Cons.prems(1) a obtain ev2 t1 evs where
      i: "imprimir fs nome (map snd (snd (agrupar fs cs []))) t = (ev2, Inr t1)" and
      r: "percorrer fs arqs t1 = (evs, Inr t')" and
      ev: "ev = fst (agrupar fs cs []) @ ev2 @ evs"
      by (auto split: prod.splits sum.splits)
    from itens_imprimir [OF i] Cons.IH [OF r] ev True a show ?thesis
      by (simp add: itens_append itens_agrupar)
  qed
qed

lemma itens_exibir:
  assumes "snd (exibir_duplicados fs arqs) = Inr r"
  shows "itens (fst (exibir_duplicados fs arqs)) = duplicados fs arqs"
proof -
  obtain ev res where p: "percorrer fs arqs (False, 0, 0) = (ev, res)"
    by (cases "percorrer fs arqs (False, 0, 0)")
  with assms obtain t where res: "res = Inr t"
    by (cases res) (auto simp: exibir_duplicados_def)
  from itens_percorrer [OF p [unfolded res]] p res show ?thesis
    by (auto simp: exibir_duplicados_def itens_append split: prod.splits)
qed

subsection \<open>The runs on the example tree\<close>

lemma obter_exemplo:
  "obter_arquivos_duplicados fs_exemplo ''raiz'' = ([Percorre ''raiz''], Inr indice_exemplo)"
  by (simp add: obter_arquivos_duplicados_def fs_exemplo_def arvore_def registrar_def
      filename_def indice_exemplo_def)

lemma obter_sumiu:
  "obter_arquivos_duplicados fs_sumiu ''raiz'' = ([Percorre ''raiz''], Inr indice_exemplo)"
  by (simp add: obter_arquivos_duplicados_def fs_sumiu_def fs_exemplo_def arvore_def registrar_def
      filename_def indice_exemplo_def)

lemma calcularHash_exemplo_x:
  "filename p = ''x.txt'' \<Longrightarrow> calcularHash fs_exemplo p =
     ([Abre p], ''2CF24DBA5FB0A30E26E83B2AC5B9E29E1B161E5C1FA7425E73043362938B9824'')"
  by (simp add: calcularHash_def fs_exemplo_def ler_hello Final_hello)

lemma calcularHash_exemplo_z:
  "filename p = ''z.txt'' \<Longrightarrow> calcularHash fs_exemplo p =
     ([Abre p, Cerr (NaoFoiPossivelAbrir p)], [])"
  by (simp add: calcularHash_def fs_exemplo_def)

lemma calcularHash_sumiu: "calcularHash fs_sumiu p = calcularHash fs_exemplo p"
  by (simp add: calcularHash_def fs_sumiu_def)

lemma agrupar_exemplo_x:
  "agrupar fs_exemplo [[''raiz'', ''a'', ''x.txt''], [''raiz'', ''b'', ''x.txt'']] [] =
     ([Abre [''raiz'', ''a'', ''x.txt''], Abre [''raiz'', ''b'', ''x.txt'']],
      [(''2CF24DBA5FB0A30E26E83B2AC5B9E29E1B161E5C1FA7425E73043362938B9824'',
        [[''raiz'', ''a'', ''x.txt''], [''raiz'', ''b'', ''x.txt'']])])"
  by (simp add: calcularHash_exemplo_x filename_def)

lemma agrupar_exemplo_z:
  "agrupar fs_exemplo [[''raiz'', ''z.txt''], [''raiz'', ''d'', ''z.txt'']] [] =
     ([Abre [''raiz'', ''z.txt''], Cerr (NaoFoiPossivelAbrir [''raiz'', ''z.txt'']),
       Abre [''raiz'', ''d'', ''z.txt''], Cerr (NaoFoiPossivelAbrir [''raiz'', ''d'', ''z.txt''])],
      [])"
  by (simp add: calcularHash_exemplo_z filename_def)

lemma agrupar_sumiu: "agrupar fs_sumiu cs m = agrupar fs_exemplo cs m"
  by (induction cs arbitrary: m) (simp_all add: calcularHash_sumiu)

lemma tamanho_exemplo:
  "tamanho fs_exemplo p =
     (if filename p = ''x.txt'' then Some 5 else if filename p = ''y.txt'' then Some 0 else None)"
  by (simp add: fs_exemplo_def)

lemma tamanho_sumiu:
  "tamanho fs_sumiu p =
     (if p = [''raiz'', ''b'', ''x.txt''] then None else tamanho fs_exemplo p)"
  by (simp add: fs_sumiu_def)

lemma exibir_exemplo:
  "exibir_duplicados fs_exemplo indice_exemplo = (eventos_exemplo, Inr (10, 2))"
  by (simp add: exibir_duplicados_def indice_exemplo_def calcularHash_exemplo_x
      calcularHash_exemplo_z tamanho_exemplo filename_def eventos_exemplo_def)

lemma duplicados_exemplo:
  "duplicados fs_exemplo indice_exemplo = [[''raiz'', ''a'', ''x.txt''], [''raiz'', ''b'', ''x.txt'']]"
  by (simp add: indice_exemplo_def calcularHash_exemplo_x calcularHash_exemplo_z filename_def)

lemma duplicados_sumiu: "duplicados fs_sumiu arqs = duplicados fs_exemplo arqs"
  by (induction arqs) (auto simp: agrupar_sumiu)

lemma exibir_sumiu:
  "exibir_duplicados fs_sumiu indice_exemplo =
     (take 7 eventos_exemplo, Inl (FilesystemError [''raiz'', ''b'', ''x.txt'']))"
  by (simp add: exibir_duplicados_def indice_exemplo_def calcularHash_sumiu calcularHash_exemplo_x
      calcularHash_exemplo_z tamanho_sumiu tamanho_exemplo filename_def eventos_exemplo_def)

lemma raiz_exemplo:
  "raiz fs_exemplo r =
     (if r = ''raiz'' then Some arvore else if r = ''nota.txt'' then Some Regular
      else if r = ''vazia'' then Some (Diretorio [])
      else if r = ''laco'' then Some (Diretorio [(''eu'', Indeterminado)]) else None)"
  by (simp add: fs_exemplo_def)

lemma raiz_longa_outra: "length r < 300 \<Longrightarrow> r \<noteq> raiz_longa"
  by (auto simp: raiz_longa_def)

lemma existe_exemplo:
  "length r < 300 \<Longrightarrow>
     existe fs_exemplo r =
       Inr (r = ''raiz'' \<or> r = ''nota.txt'' \<or> r = ''vazia'' \<or> r = ''laco'')"
  by (simp add: fs_exemplo_def raiz_longa_outra)

lemma existe_exemplo_longa:
  "existe fs_exemplo raiz_longa = Inl (FilesystemError [raiz_longa])"
  by (simp add: fs_exemplo_def)

lemma raiz_exemplo_longa: "raiz fs_exemplo raiz_longa = None"
  using raiz_longa_outra [of "''raiz''"] raiz_longa_outra [of "''nota.txt''"]
    raiz_longa_outra [of "''vazia''"] raiz_longa_outra [of "''laco''"]
  by (auto simp: raiz_exemplo)

lemma existe_sumiu: "existe fs_sumiu = existe fs_exemplo"
  by (simp add: fs_sumiu_def)

lemma main_exemplo:
  "main fs_exemplo ''raiz'' =
     ([Cout Titulo, Cout InformePasta, Existe ''raiz'', Percorre ''raiz''] @ eventos_exemplo @
      [Cout (PodeSerLiberado 5)], Inr 0)"
  by (simp add: main_def obter_exemplo exibir_exemplo estimativa_def existe_exemplo)

lemma main_sumiu:
  "main fs_sumiu ''raiz'' =
     ([Cout Titulo, Cout InformePasta, Existe ''raiz'', Percorre ''raiz''] @ take 7 eventos_exemplo,
      Inl (FilesystemError [''raiz'', ''b'', ''x.txt'']))"
  by (simp add: main_def obter_sumiu exibir_sumiu existe_sumiu existe_exemplo)

text \<open>A link that leads back to itself below the root ends the traversal.\<close>

lemma main_laco:
  "main fs_exemplo ''laco'' =
     ([Cout Titulo, Cout InformePasta, Existe ''laco'', Percorre ''laco''],
      Inl (FilesystemError [''laco'', ''eu'']))"
  by (simp add: main_def obter_arquivos_duplicados_def raiz_exemplo existe_exemplo registrar_def)

section \<open>Claims about the scanner\<close>

text \<open>
  Claim C1. In every run, two paths that are in the same group of equal digest (the groups
  are built for one name of the index at a time, and the groups with more than one member
  are the ones reported) have the same file name, the name of the index entry, and the
  same digest, which is the key of the group and is not the empty string of a failure. So
  two files of equal content and different names are in no group together, and are never
  reported as duplicates of each other.
\<close>

theorem grupo_mesmo_nome_e_hash:
  assumes "snd (obter_arquivos_duplicados fs pastaRaiz) = Inr arquivos"
    and "(nomeArquivo, caminhos) \<in> set arquivos"
    and "(hash, caminhosHash) \<in> set (snd (agrupar fs caminhos []))"
    and "p \<in> set caminhosHash" and "q \<in> set caminhosHash"
  shows "filename p = nomeArquivo \<and> filename q = nomeArquivo \<and>
    snd (calcularHash fs p) = hash \<and> snd (calcularHash fs q) = hash \<and> hash \<noteq> []"
proof -
  have bf: "bem_formado arquivos" using assms(1) by (rule obter_bem_formado)
  have "x \<in> set caminhos \<and> snd (calcularHash fs x) = hash \<and> hash \<noteq> []"
    if "x \<in> set caminhosHash" for x
    using agrupar_mem [OF assms(3) that] by simp
  moreover have "filename x = nomeArquivo" if "x \<in> set caminhos" for x
    using bf assms(2) that by (auto simp: bem_formado_def)
  ultimately show ?thesis using assms(4,5) by blast
qed

theorem grupo_mesmo_nome_e_hash_witness:
  "snd (obter_arquivos_duplicados fs_exemplo ''raiz'') = Inr indice_exemplo \<and>
   (''x.txt'', [[''raiz'', ''a'', ''x.txt''], [''raiz'', ''b'', ''x.txt'']]) \<in> set indice_exemplo \<and>
   (''2CF24DBA5FB0A30E26E83B2AC5B9E29E1B161E5C1FA7425E73043362938B9824'',
      [[''raiz'', ''a'', ''x.txt''], [''raiz'', ''b'', ''x.txt'']])
     \<in> set (snd (agrupar fs_exemplo [[''raiz'', ''a'', ''x.txt''], [''raiz'', ''b'', ''x.txt'']] [])) \<and>
   filename [''raiz'', ''a'', ''x.txt''] = ''x.txt'' \<and> filename [''raiz'', ''b'', ''x.txt''] = ''x.txt'' \<and>
   snd (calcularHash fs_exemplo [''raiz'', ''a'', ''x.txt'']) =
     ''2CF24DBA5FB0A30E26E83B2AC5B9E29E1B161E5C1FA7425E73043362938B9824'' \<and>
   snd (calcularHash fs_exemplo [''raiz'', ''b'', ''x.txt'']) =
     ''2CF24DBA5FB0A30E26E83B2AC5B9E29E1B161E5C1FA7425E73043362938B9824''"
proof -
  have 1: "snd (obter_arquivos_duplicados fs_exemplo ''raiz'') = Inr indice_exemplo"
    by (simp add: obter_exemplo)
  have 2: "(''x.txt'', [[''raiz'', ''a'', ''x.txt''], [''raiz'', ''b'', ''x.txt'']]) \<in> set indice_exemplo"
    by (simp add: indice_exemplo_def)
  have 3: "(''2CF24DBA5FB0A30E26E83B2AC5B9E29E1B161E5C1FA7425E73043362938B9824'',
      [[''raiz'', ''a'', ''x.txt''], [''raiz'', ''b'', ''x.txt'']])
     \<in> set (snd (agrupar fs_exemplo [[''raiz'', ''a'', ''x.txt''], [''raiz'', ''b'', ''x.txt'']] []))"
    by (simp only: agrupar_exemplo_x) simp
  have 4: "[''raiz'', ''a'', ''x.txt''] \<in> set [[''raiz'', ''a'', ''x.txt''], [''raiz'', ''b'', ''x.txt'']]"
    and 5: "[''raiz'', ''b'', ''x.txt''] \<in> set [[''raiz'', ''a'', ''x.txt''], [''raiz'', ''b'', ''x.txt'']]"
    by simp_all
  from grupo_mesmo_nome_e_hash [OF 1 2 3 4 5] 1 2 3 show ?thesis by simp
qed

text \<open>
  Claim C4. A path that is alone under its name in the index is never given to
  \<open>calcularHash\<close>: every call of \<open>calcularHash\<close> starts by opening its path, and the path
  is opened neither in the report nor anywhere else in the run. Every path that the run
  does open is listed in the index under a name with more than one path.
\<close>

theorem nome_unico_sem_hash:
  assumes "snd (obter_arquivos_duplicados fs pastaRaiz) = Inr arquivos"
    and "(nomeArquivo, [p]) \<in> set arquivos"
  shows "Abre p \<notin> set (fst (exibir_duplicados fs arquivos)) \<and>
    Abre p \<notin> set (fst (main fs pastaRaiz)) \<and>
    (\<forall>q. Abre q \<in> set (fst (main fs pastaRaiz)) \<longrightarrow>
       (\<exists>nome cs. (nome, cs) \<in> set arquivos \<and> 1 < length cs \<and> q \<in> set cs))"
proof -
  have bf: "bem_formado arquivos" using assms(1) by (rule obter_bem_formado)
  have c: "\<exists>nome cs. (nome, cs) \<in> set arquivos \<and> 1 < length cs \<and> q \<in> set cs"
    if "Abre q \<in> set (fst (main fs pastaRaiz))" for q
  proof -
    from main_eventos [OF that] assms(1)
    have "Abre q \<in> set (fst (exibir_duplicados fs arquivos))" by auto
    from exibir_eventos [OF this]
    have "Abre q \<in> set (fst (percorrer fs arquivos (False, 0, 0)))" by simp
    from percorrer_eventos [OF this] show ?thesis by (auto simp: Abre_agrupar)
  qed
  have a: "Abre p \<notin> set (fst (percorrer fs arquivos t))" for t
  proof
    assume "Abre p \<in> set (fst (percorrer fs arquivos t))"
    from percorrer_eventos [OF this] obtain nome cs where
      cs: "(nome, cs) \<in> set arquivos" "1 < length cs" and "Abre p \<in> set (fst (agrupar fs cs []))"
      by auto
    then have p: "p \<in> set cs" by (simp add: Abre_agrupar)
    with bf cs(1) have "filename p = nome" by (auto simp: bem_formado_def)
    moreover from bf assms(2) have "filename p = nomeArquivo" by (auto simp: bem_formado_def)
    ultimately have "nome = nomeArquivo" by simp
    with bf cs(1) assms(2) have "cs = [p]"
      by (auto simp: bem_formado_def dest: eq_key_imp_eq_value)
    with cs(2) show False by simp
  qed
  have b: "Abre p \<notin> set (fst (exibir_duplicados fs arquivos))"
    using a exibir_eventos [of "Abre p" fs arquivos] by auto
  moreover have "Abre p \<notin> set (fst (main fs pastaRaiz))"
    using main_eventos [of "Abre p" fs pastaRaiz] b assms(1) by auto
  ultimately show ?thesis using c by blast
qed

theorem nome_unico_sem_hash_witness:
  "snd (obter_arquivos_duplicados fs_exemplo ''raiz'') = Inr indice_exemplo \<and>
   (''y.txt'', [[''raiz'', ''b'', ''y.txt'']]) \<in> set indice_exemplo \<and>
   Abre [''raiz'', ''b'', ''y.txt''] \<notin> set (fst (exibir_duplicados fs_exemplo indice_exemplo)) \<and>
   Abre [''raiz'', ''b'', ''y.txt''] \<notin> set (fst (main fs_exemplo ''raiz''))"
proof -
  have 1: "snd (obter_arquivos_duplicados fs_exemplo ''raiz'') = Inr indice_exemplo"
    by (simp add: obter_exemplo)
  have 2: "(''y.txt'', [[''raiz'', ''b'', ''y.txt'']]) \<in> set indice_exemplo"
    by (simp add: indice_exemplo_def)
  from nome_unico_sem_hash [OF 1 2] 1 2 show ?thesis by simp
qed

text \<open>
  Claim C5. A path whose digest fails, that is, for which \<open>calcularHash\<close> returns the
  empty string, is a member of no group of equal digest, whatever the paths it is grouped
  with; it is not among the reported paths and no line of the report names it. In
  particular two paths that both fail are never grouped with each other.
\<close>

theorem falha_fora_dos_grupos:
  assumes "snd (calcularHash fs p) = []"
  shows "(\<forall>caminhos hash g. (hash, g) \<in> set (snd (agrupar fs caminhos [])) \<longrightarrow> p \<notin> set g) \<and>
    p \<notin> set (duplicados fs arquivos) \<and>
    Cout (Item p) \<notin> set (fst (exibir_duplicados fs arquivos))"
proof -
  have a: "p \<notin> set g" if "(hash, g) \<in> set (snd (agrupar fs caminhos []))" for caminhos hash g
    using agrupar_mem [OF that, of p] assms by auto
  have b: "p \<notin> set (duplicados fs arquivos)"
    using duplicados_mem [of p fs arquivos] a by blast
  have "Cout (Item p) \<notin> set (fst (percorrer fs arquivos t))" for t
  proof
    assume "Cout (Item p) \<in> set (fst (percorrer fs arquivos t))"
    from percorrer_eventos [OF this] obtain cs g where
      "g \<in> set (map snd (snd (agrupar fs cs [])))" and "p \<in> set g"
      by (auto simp: Cout_agrupar)
    with a show False by auto
  qed
  then have "Cout (Item p) \<notin> set (fst (exibir_duplicados fs arquivos))"
    using exibir_eventos [of "Cout (Item p)" fs arquivos] by auto
  with a b show ?thesis by blast
qed

theorem falha_fora_dos_grupos_witness:
  "snd (calcularHash fs_exemplo [''raiz'', ''z.txt'']) = [] \<and>
   snd (calcularHash fs_exemplo [''raiz'', ''d'', ''z.txt'']) = [] \<and>
   snd (agrupar fs_exemplo [[''raiz'', ''z.txt''], [''raiz'', ''d'', ''z.txt'']] []) = [] \<and>
   [''raiz'', ''z.txt''] \<notin> set (duplicados fs_exemplo indice_exemplo) \<and>
   Cout (Item [''raiz'', ''z.txt'']) \<notin> set (fst (exibir_duplicados fs_exemplo indice_exemplo))"
proof -
  have 1: "snd (calcularHash fs_exemplo [''raiz'', ''z.txt'']) = []"
    and 2: "snd (calcularHash fs_exemplo [''raiz'', ''d'', ''z.txt'']) = []"
    by (simp_all add: calcularHash_exemplo_z filename_def)
  have 3: "snd (agrupar fs_exemplo [[''raiz'', ''z.txt''], [''raiz'', ''d'', ''z.txt'']] []) = []"
    by (simp only: agrupar_exemplo_z snd_conv)
  from falha_fora_dos_grupos [OF 1, of indice_exemplo] 1 2 3 show ?thesis
    by blast
qed

text \<open>
  What holds of a run whose report completes, with fewer than \<open>2 ^ 31\<close> reported paths and
  less than \<open>2 ^ 64\<close> bytes in them, so that neither counter wraps around. Every reported
  path has a size; the totals returned are the sum of the sizes and the number of the
  reported paths; when there is at least one reported path the last line printed is the
  estimate, the total of bytes minus the integer quotient of the total by the count; when
  there is none, no estimate is printed, neither after the report nor within it. The
  reported paths are the paths that the lines of the report name, in their order.
\<close>

lemma estimativa_final:
  assumes "snd (obter_arquivos_duplicados fs pastaRaiz) = Inr arquivos"
    and "snd (exibir_duplicados fs arquivos) = Inr r"
    and "length (duplicados fs arquivos) < 2 ^ 31"
    and "sum_list (map (tamanho_de fs) (duplicados fs arquivos)) < 2 ^ 64"
    and "existe fs pastaRaiz = Inr True"
  shows "(\<forall>c \<in> set (duplicados fs arquivos). \<exists>n. tamanho fs c = Some n) \<and>
    r = (of_nat (sum_list (map (tamanho_de fs) (duplicados fs arquivos))),
         of_nat (length (duplicados fs arquivos))) \<and>
    fst (main fs pastaRaiz) =
      [Cout Titulo, Cout InformePasta, Existe pastaRaiz, Percorre pastaRaiz] @
      fst (exibir_duplicados fs arquivos) @
      (if 1 \<le> length (duplicados fs arquivos)
       then [Cout (PodeSerLiberado (of_nat
               (sum_list (map (tamanho_de fs) (duplicados fs arquivos)) -
                sum_list (map (tamanho_de fs) (duplicados fs arquivos)) div
                  length (duplicados fs arquivos))))]
       else []) \<and>
    (\<forall>v. Cout (PodeSerLiberado v) \<notin> set (fst (exibir_duplicados fs arquivos))) \<and>
    itens (fst (exibir_duplicados fs arquivos)) = duplicados fs arquivos"
proof -
  let ?b = "sum_list (map (tamanho_de fs) (duplicados fs arquivos))"
  let ?n = "length (duplicados fs arquivos)"
  have r: "r = (of_nat ?b, scast (of_nat ?n :: 32 word))"
    using assms(2) by (rule exibir_Inr(1))
  have e: "estimativa r =
      (if 1 \<le> ?n then [Cout (PodeSerLiberado (of_nat (?b - ?b div ?n)))] else [])"
    unfolding r using assms(4,3) by (rule estimativa_nat)
  have o: "obter_arquivos_duplicados fs pastaRaiz = ([Percorre pastaRaiz], Inr arquivos)"
    using assms(1) fst_obter [of fs pastaRaiz]
    by (cases "obter_arquivos_duplicados fs pastaRaiz") simp
  obtain ev where x: "exibir_duplicados fs arquivos = (ev, Inr r)"
    using assms(2) by (cases "exibir_duplicados fs arquivos") simp
  have m: "fst (main fs pastaRaiz) =
      [Cout Titulo, Cout InformePasta, Existe pastaRaiz, Percorre pastaRaiz] @
      fst (exibir_duplicados fs arquivos) @ estimativa r"
    using o x assms(5) by (simp add: main_def)
  have "Cout (PodeSerLiberado v) \<notin> set (fst (exibir_duplicados fs arquivos))" for v
    using exibir_eventos [of "Cout (PodeSerLiberado v)" fs arquivos]
      percorrer_eventos [of "Cout (PodeSerLiberado v)" fs arquivos "(False, 0, 0)"]
    by (auto simp: Cout_agrupar)
  moreover have "\<forall>c \<in> set (duplicados fs arquivos). \<exists>n. tamanho fs c = Some n"
    using assms(2) by (rule exibir_Inr(2))
  moreover have "itens (fst (exibir_duplicados fs arquivos)) = duplicados fs arquivos"
    using assms(2) by (rule itens_exibir)
  ultimately show ?thesis
    using m e r by (simp add: scast_of_nat_32_64 [OF assms(3)])
qed

lemma estimativa_final_exemplo:
  "snd (obter_arquivos_duplicados fs_exemplo ''raiz'') = Inr indice_exemplo \<and>
   snd (exibir_duplicados fs_exemplo indice_exemplo) = Inr (10, 2) \<and>
   length (duplicados fs_exemplo indice_exemplo) = 2 \<and>
   sum_list (map (tamanho_de fs_exemplo) (duplicados fs_exemplo indice_exemplo)) = 10 \<and>
   fst (main fs_exemplo ''raiz'') =
     [Cout Titulo, Cout InformePasta, Existe ''raiz'', Percorre ''raiz''] @ eventos_exemplo @
     [Cout (PodeSerLiberado 5)] \<and>
   snd (obter_arquivos_duplicados fs_exemplo ''vazia'') = Inr [] \<and>
   snd (exibir_duplicados fs_exemplo []) = Inr (0, 0) \<and>
   fst (main fs_exemplo ''vazia'') =
     [Cout Titulo, Cout InformePasta, Existe ''vazia'', Percorre ''vazia'', Cout NenhumDuplicado]"
proof -
  have 1: "snd (obter_arquivos_duplicados fs_exemplo ''raiz'') = Inr indice_exemplo"
    by (simp add: obter_exemplo)
  have 2: "snd (exibir_duplicados fs_exemplo indice_exemplo) = Inr (10, 2)"
    by (simp add: exibir_exemplo)
  have 3: "length (duplicados fs_exemplo indice_exemplo) = 2"
    by (simp add: duplicados_exemplo)
  have 4: "sum_list (map (tamanho_de fs_exemplo) (duplicados fs_exemplo indice_exemplo)) = 10"
    by (simp add: duplicados_exemplo tamanho_de_def tamanho_exemplo filename_def)
  have b3: "length (duplicados fs_exemplo indice_exemplo) < 2 ^ 31" using 3 by simp
  have b4: "sum_list (map (tamanho_de fs_exemplo) (duplicados fs_exemplo indice_exemplo)) < 2 ^ 64"
    using 4 by simp
  have 5: "snd (obter_arquivos_duplicados fs_exemplo ''vazia'') = Inr []"
    by (simp add: obter_arquivos_duplicados_def raiz_exemplo)
  have 6: "exibir_duplicados fs_exemplo [] = ([Cout NenhumDuplicado], Inr (0, 0))"
    by (simp add: exibir_duplicados_def)
  then have 7: "snd (exibir_duplicados fs_exemplo []) = Inr (0, 0)" by simp
  have b5: "length (duplicados fs_exemplo []) < 2 ^ 31"
    and b6: "sum_list (map (tamanho_de fs_exemplo) (duplicados fs_exemplo [])) < 2 ^ 64"
    by simp_all
  have 8: "existe fs_exemplo ''raiz'' = Inr True" and 9: "existe fs_exemplo ''vazia'' = Inr True"
    by (simp_all add: existe_exemplo)
  from estimativa_final [OF 1 2 b3 b4 8] estimativa_final [OF 5 7 b5 b6 9] 1 2 3 4 5 6 7
  show ?thesis by (simp add: exibir_exemplo)
qed

text \<open>
  Claim C2, at a tree where one of two duplicates is gone when its size is asked. The run
  reports a group of two paths, so that the count of files in duplicate groups is at
  least 1, and prints no estimate: the size query of line 85 throws, nothing catches the
  exception, and the program ends before line 116. On the tree as it was, the estimate
  of 5 bytes is printed.
\<close>

theorem estimativa_nao_impressa:
  "snd (obter_arquivos_duplicados fs_sumiu ''raiz'') = Inr indice_exemplo \<and>
   duplicados fs_sumiu indice_exemplo =
     [[''raiz'', ''a'', ''x.txt''], [''raiz'', ''b'', ''x.txt'']] \<and>
   itens (fst (main fs_sumiu ''raiz'')) =
     [[''raiz'', ''a'', ''x.txt''], [''raiz'', ''b'', ''x.txt'']] \<and>
   estimativas (fst (main fs_sumiu ''raiz'')) = [] \<and>
   snd (main fs_sumiu ''raiz'') = Inl (FilesystemError [''raiz'', ''b'', ''x.txt'']) \<and>
   estimativas (fst (main fs_exemplo ''raiz'')) = [5] \<and>
   snd (main fs_exemplo ''raiz'') = Inr 0"
  by (simp add: obter_sumiu duplicados_sumiu duplicados_exemplo main_sumiu main_exemplo
      eventos_exemplo_def)

text \<open>
  The exit status and the error line, by the outcome of the test of line 105. When the
  test is false the program prints the error line after its two lines of greeting, never
  starts the traversal, and returns \<open>-1\<close>. When it is true, whenever the program returns,
  it returns 0; and it does return whenever the traversal and the report complete. When
  the test throws, the program ends there.
\<close>

lemma main_status:
  "(existe fs pastaRaiz = Inr False \<longrightarrow>
      main fs pastaRaiz =
        ([Cout Titulo, Cout InformePasta, Existe pastaRaiz, Cout RaizNaoExiste], Inr (- 1))) \<and>
   (existe fs pastaRaiz = Inr True \<longrightarrow>
      (\<forall>s. snd (main fs pastaRaiz) = Inr s \<longrightarrow> s = 0) \<and>
      (\<forall>arquivos r. snd (obter_arquivos_duplicados fs pastaRaiz) = Inr arquivos \<and>
         snd (exibir_duplicados fs arquivos) = Inr r \<longrightarrow> snd (main fs pastaRaiz) = Inr 0)) \<and>
   (\<forall>e. existe fs pastaRaiz = Inl e \<longrightarrow>
      main fs pastaRaiz = ([Cout Titulo, Cout InformePasta, Existe pastaRaiz], Inl e))"
  by (auto simp: main_def split: prod.splits sum.splits)

lemma main_status_exemplo:
  "existe fs_exemplo ''nada'' = Inr False \<and>
   main fs_exemplo ''nada'' =
     ([Cout Titulo, Cout InformePasta, Existe ''nada'', Cout RaizNaoExiste], Inr (- 1)) \<and>
   snd (main fs_exemplo ''raiz'') = Inr 0 \<and> snd (main fs_exemplo ''vazia'') = Inr 0"
proof -
  have 1: "existe fs_exemplo ''nada'' = Inr False" and 2: "existe fs_exemplo ''raiz'' = Inr True"
    and 3: "existe fs_exemplo ''vazia'' = Inr True"
    by (simp_all add: existe_exemplo)
  have 4: "snd (obter_arquivos_duplicados fs_exemplo ''raiz'') = Inr indice_exemplo"
    by (simp add: obter_exemplo)
  have 5: "snd (exibir_duplicados fs_exemplo indice_exemplo) = Inr (10, 2)"
    by (simp add: exibir_exemplo)
  have 6: "snd (obter_arquivos_duplicados fs_exemplo ''vazia'') = Inr []"
    by (simp add: obter_arquivos_duplicados_def raiz_exemplo)
  have 7: "snd (exibir_duplicados fs_exemplo []) = Inr (0, 0)"
    by (simp add: exibir_duplicados_def)
  from main_status [of fs_exemplo "''nada''"] main_status [of fs_exemplo "''raiz''"]
    main_status [of fs_exemplo "''vazia''"] 1 2 3 4 5 6 7
  show ?thesis by blast
qed

text \<open>
  Claim C8, at a root that does not exist and whose name, of 300 characters, is longer
  than a file name may be. Nothing is at the root, and the test of line 105 does not
  return false: the query of the status fails, \<^verbatim>\<open>exists\<close> throws, nothing catches the
  exception, and the program ends through \<^verbatim>\<open>std::terminate\<close> after its two lines of
  greeting, without the error line of line 106 and without returning a status.
\<close>

theorem main_raiz_ilegivel:
  "raiz fs_exemplo raiz_longa = None \<and>
   existe fs_exemplo raiz_longa = Inl (FilesystemError [raiz_longa]) \<and>
   main fs_exemplo raiz_longa =
     ([Cout Titulo, Cout InformePasta, Existe raiz_longa], Inl (FilesystemError [raiz_longa]))"
  by (simp add: main_def existe_exemplo_longa raiz_exemplo_longa)

text \<open>
  Claim C7, at a root that exists and is a regular file. The test of line 105 lets the
  root pass, the constructor of the directory iterator throws, nothing catches the
  exception, and the program ends through \<^verbatim>\<open>std::terminate\<close> instead of completing the scan.
\<close>

theorem main_raiz_arquivo_regular:
  "existe fs_exemplo ''nota.txt'' = Inr True \<and>
   raiz fs_exemplo ''nota.txt'' = Some Regular \<and>
   main fs_exemplo ''nota.txt'' =
     ([Cout Titulo, Cout InformePasta, Existe ''nota.txt'', Percorre ''nota.txt''],
      Inl (FilesystemError [''nota.txt'']))"
  by (simp add: main_def obter_arquivos_duplicados_def raiz_exemplo existe_exemplo)

text \<open>
  Claim C6, at a tree where one of two duplicates is gone when its size is asked. On the
  tree as it was, the run completes with status 0. With the file gone, the size query
  of line 85 throws after the line of the path is printed, nothing catches the exception,
  and the program ends through \<^verbatim>\<open>std::terminate\<close>: the report is cut short and no estimate
  is printed.
\<close>

theorem main_arquivo_sumiu:
  "existe fs_sumiu = existe fs_exemplo \<and>
   abrir fs_sumiu = abrir fs_exemplo \<and> raiz fs_sumiu = raiz fs_exemplo \<and>
   tamanho fs_sumiu [''raiz'', ''b'', ''x.txt''] = None \<and>
   snd (main fs_exemplo ''raiz'') = Inr 0 \<and>
   main fs_sumiu ''raiz'' =
     ([Cout Titulo, Cout InformePasta, Existe ''raiz'', Percorre ''raiz'',
       Abre [''raiz'', ''a'', ''x.txt''], Abre [''raiz'', ''b'', ''x.txt''],
       Cout (DuplicadosParaNome ''x.txt''),
       Cout (Item [''raiz'', ''a'', ''x.txt'']), Consulta [''raiz'', ''a'', ''x.txt''],
       Cout (Item [''raiz'', ''b'', ''x.txt'']), Consulta [''raiz'', ''b'', ''x.txt'']],
      Inl (FilesystemError [''raiz'', ''b'', ''x.txt'']))"
  by (simp add: main_sumiu main_exemplo eventos_exemplo_def tamanho_sumiu) (simp add: fs_sumiu_def)

end
